theory Spec2Isabelle
  imports Main "HOL-Library.Word"
begin

unbundle bit_operations_syntax

section \<open>The XBee API-mode driver of xbee.c\<close>

text \<open>
  A shallow embedding of \<^verbatim>\<open>xbee.c\<close>: the escape-aware frame emitter, the request
  builders, the receive ring with its frame scanner, the buffer fill and the response
  parser.

  Conventions of the embedding.
  \<^item> \<^verbatim>\<open>uint8_t\<close> is \<open>8 word\<close>, \<^verbatim>\<open>uint16_t\<close> is \<open>16 word\<close>, \<^verbatim>\<open>uint64_t\<close> is
    \<open>64 word\<close>.
  \<^item> \<^verbatim>\<open>size_t\<close> is a \<open>nat\<close> below \<open>2 ^ 64\<close>. Where the ring bookkeeping adds or
    subtracts two sizes without a guard, the wrap-around is written out (\<open>size_add\<close>,
    \<open>size_sub\<close>). An increment of a counter that is below another \<^verbatim>\<open>size_t\<close> value,
    and a difference that stands behind a comparison or an assertion of its operands,
    cannot wrap and are written with \<open>+\<close> and \<open>-\<close>. In \<^verbatim>\<open>xbee_write_bytes\<close> the
    offsets satisfy \<open>off \<le> i \<le> nbytes\<close> throughout, so the two differences there never
    wrap.
  \<^item> \<^verbatim>\<open>int\<close> is a 32-bit integer, held in an \<open>int\<close>. The conversions between
    \<^verbatim>\<open>int\<close> and \<^verbatim>\<open>size_t\<close> are written out: \<open>size_of_int\<close> where an \<^verbatim>\<open>int\<close> is
    added to or compared with a \<^verbatim>\<open>size_t\<close> (as in \<^verbatim>\<open>ret != to_write\<close>), and
    \<open>int_of_size\<close> where a \<^verbatim>\<open>size_t\<close> is returned as an \<^verbatim>\<open>int\<close>.
  \<^item> A buffer passed as pointer and length is a list; its length is the length argument.
  \<^item> A failed \<^verbatim>\<open>assert\<close> and a store outside the caller's buffer are errors
    (\<open>Inl\<close>) of the functions that can reach them.
  \<^item> The transport (\<^verbatim>\<open>xbee->uart\<close>) is a parameter: a state of any type \<open>'u\<close> and
    the functions \<^verbatim>\<open>write\<close> and \<^verbatim>\<open>read\<close> over it.
\<close>

type_synonym byte = "8 word"

abbreviation XBEE_FRAME_DELIM :: byte where "XBEE_FRAME_DELIM \<equiv> 0x7E"
abbreviation XBEE_FRAME_ESCAPE :: byte where "XBEE_FRAME_ESCAPE \<equiv> 0x7D"
abbreviation XBEE_XON :: byte where "XBEE_XON \<equiv> 0x11"
abbreviation XBEE_XOFF :: byte where "XBEE_XOFF \<equiv> 0x13"

text \<open>
  Modelled from the spec: the request API identifiers of \<^verbatim>\<open>xbee.h\<close>, which is not
  part of the sources. Section 4.6 of the specification gives their values.
\<close>

abbreviation XBEE_AT_COMMAND :: byte where "XBEE_AT_COMMAND \<equiv> 0x08"
abbreviation XBEE_REMOTE_AT_COMMAND :: byte where "XBEE_REMOTE_AT_COMMAND \<equiv> 0x17"

subsection \<open>The transport\<close>

text \<open>
  \<^verbatim>\<open>write(buf, nbyte)\<close> hands a block of bytes to the transport and returns a count.
  \<^verbatim>\<open>read(buf, nbyte)\<close> returns a count or a negative error, and the bytes it stored at
  \<^verbatim>\<open>buf\<close>. Every caller keeps the result in an \<^verbatim>\<open>int ret\<close>: the first component
  of a transport's result is that \<^verbatim>\<open>int\<close>.
\<close>

type_synonym 'u uart_write = "'u \<Rightarrow> byte list \<Rightarrow> int \<times> 'u"
type_synonym 'u uart_read = "'u \<Rightarrow> nat \<Rightarrow> int \<times> byte list \<times> 'u"

text \<open>
  Arithmetic of \<^verbatim>\<open>size_t\<close> (64 bits) and the conversions between \<^verbatim>\<open>size_t\<close> and a
  32-bit \<^verbatim>\<open>int\<close>.
\<close>

definition size_add :: "nat \<Rightarrow> nat \<Rightarrow> nat" where
  "size_add a b = (a + b) mod 2 ^ 64"

definition size_sub :: "nat \<Rightarrow> nat \<Rightarrow> nat" where
  "size_sub a b = nat ((int a - int b) mod 2 ^ 64)"

definition size_of_int :: "int \<Rightarrow> nat" where
  "size_of_int r = nat (r mod 2 ^ 64)"

definition int_of_size :: "nat \<Rightarrow> int" where
  "int_of_size n = (int n + 2 ^ 31) mod 2 ^ 32 - 2 ^ 31"

text \<open>
  A transport that accepts every block in full and records what it was given. The count
  it returns is the number of bytes as an \<^verbatim>\<open>int\<close>: a block of \<open>2 ^ 31\<close> bytes or more
  has no count that \<^verbatim>\<open>int\<close> can hold.
\<close>

definition tx_write :: "(byte list) uart_write" where
  "tx_write sent buf = (int_of_size (length buf), sent @ buf)"

subsection \<open>Writing bytes with escaping\<close>

definition needs_escape :: "byte \<Rightarrow> bool" where
  "needs_escape b \<longleftrightarrow>
     b = XBEE_FRAME_DELIM \<or> b = XBEE_FRAME_ESCAPE \<or> b = XBEE_XON \<or> b = XBEE_XOFF"

text \<open>
  The \<^verbatim>\<open>for\<close> loop of \<^verbatim>\<open>xbee_write_bytes\<close> with its two counters \<^verbatim>\<open>i\<close> and
  \<^verbatim>\<open>off\<close>, followed by the write of the remaining bytes. The result is the return
  code, the transport and the accumulator. In \<^verbatim>\<open>ret != to_write\<close> and
  \<^verbatim>\<open>ret != sizeof(escape_buf)\<close> the \<^verbatim>\<open>int ret\<close> is converted to \<^verbatim>\<open>size_t\<close>.
\<close>

function write_bytes_loop ::
  "'u uart_write \<Rightarrow> byte list \<Rightarrow> nat \<Rightarrow> nat \<Rightarrow> 'u \<Rightarrow> byte \<Rightarrow> int \<times> 'u \<times> byte" where
  "write_bytes_loop wr bytes i off u accum =
     (if i < length bytes then
        (let accum' = accum + bytes ! i in
         if needs_escape (bytes ! i) then
           (let to_write = i - off;
                r1 = wr u (take to_write (drop off bytes)) in
            if size_of_int (fst r1) \<noteq> to_write then (-11, snd r1, accum')
            else
              (let r2 = wr (snd r1) [XBEE_FRAME_ESCAPE, bytes ! i XOR 0x20] in
               if size_of_int (fst r2) \<noteq> 2 then (-12, snd r2, accum')
               else write_bytes_loop wr bytes (i + 1) (i + 1) (snd r2) accum'))
         else write_bytes_loop wr bytes (i + 1) off u accum')
      else
        (let to_write = length bytes - off;
             r = wr u (take to_write (drop off bytes)) in
         if size_of_int (fst r) \<noteq> to_write then (-13, snd r, accum)
         else (0, snd r, accum)))"
  by pat_completeness auto
termination
  by (relation "measure (\<lambda>(wr, bytes, i, off, u, accum). length bytes - i)") auto

declare write_bytes_loop.simps [simp del]

definition xbee_write_bytes ::
  "'u uart_write \<Rightarrow> 'u \<Rightarrow> byte list \<Rightarrow> byte \<Rightarrow> int \<times> 'u \<times> byte" where
  "xbee_write_bytes wr u buf accum = write_bytes_loop wr buf 0 0 u accum"

text \<open>
  \<^verbatim>\<open>xbee_start_frame\<close>: the delimiter goes out unescaped, the two length bytes through
  \<^verbatim>\<open>xbee_write_bytes\<close>, and the accumulator is reset afterwards. On the \<open>-14\<close> path
  the C leaves \<^verbatim>\<open>*accum\<close> untouched and no caller reads it; the model returns 0 there.
\<close>

definition xbee_start_frame ::
  "'u uart_write \<Rightarrow> 'u \<Rightarrow> 16 word \<Rightarrow> int \<times> 'u \<times> byte" where
  "xbee_start_frame wr u total_frame_length =
     (let r = wr u [XBEE_FRAME_DELIM] in
      if fst r \<noteq> 1 then (-14, snd r, 0)
      else
        (let buf = [ucast (drop_bit 8 total_frame_length),
                    ucast (total_frame_length AND 0xFF)];
             w = xbee_write_bytes wr (snd r) buf 0 in
         (fst w, fst (snd w), 0)))"

definition xbee_finish_frame :: "'u uart_write \<Rightarrow> 'u \<Rightarrow> byte \<Rightarrow> int \<times> 'u" where
  "xbee_finish_frame wr u accum =
     (let w = xbee_write_bytes wr u [0xFF - accum] 0 in (fst w, fst (snd w)))"

text \<open>
  \<^verbatim>\<open>frame_size\<close> is a \<^verbatim>\<open>size_t\<close> passed for a \<^verbatim>\<open>uint16_t\<close> parameter: it is
  reduced modulo \<open>2 ^ 16\<close>.
\<close>

definition xbee_send_frame :: "'u uart_write \<Rightarrow> 'u \<Rightarrow> byte list \<Rightarrow> int \<times> 'u" where
  "xbee_send_frame wr u frame_data =
     (let s = xbee_start_frame wr u (of_nat (length frame_data)) in
      if fst s \<noteq> 0 then (fst s, fst (snd s))
      else
        (let w = xbee_write_bytes wr (fst (snd s)) frame_data (snd (snd s)) in
         if fst w \<noteq> 0 then (fst w, fst (snd w))
         else xbee_finish_frame wr (fst (snd w)) (snd (snd w))))"

definition byte_of_char :: "char \<Rightarrow> byte" where
  "byte_of_char c = of_nat (of_char c)"

definition xbee_at_command ::
  "'u uart_write \<Rightarrow> 'u \<Rightarrow> byte \<Rightarrow> string \<Rightarrow> byte list \<Rightarrow> int \<times> 'u" where
  "xbee_at_command wr u frame_id at_command param =
     (let s = xbee_start_frame wr u (of_nat (4 + length param)) in
      if fst s \<noteq> 0 then (fst s, fst (snd s))
      else
        (let buf = [XBEE_AT_COMMAND, frame_id,
                    byte_of_char (at_command ! 0), byte_of_char (at_command ! 1)];
             w = xbee_write_bytes wr (fst (snd s)) buf (snd (snd s)) in
         if fst w \<noteq> 0 then (fst w, fst (snd w))
         else
           (let w2 = xbee_write_bytes wr (fst (snd w)) param (snd (snd w)) in
            if fst w2 \<noteq> 0 then (fst w2, fst (snd w2))
            else xbee_finish_frame wr (fst (snd w2)) (snd (snd w2)))))"

subsection \<open>The byte-stuffing rule of the specification\<close>

text \<open>
  Section 4.3 in its own words: a byte of the escape set is sent as \<open>0x7D\<close> followed by
  the byte XOR \<open>0x20\<close>, any other byte literally.
\<close>

definition escaped :: "byte \<Rightarrow> byte list" where
  "escaped b = (if needs_escape b then [0x7D, b XOR 0x20] else [b])"

definition stuffed :: "byte list \<Rightarrow> byte list" where
  "stuffed bs = concat (map escaped bs)"

subsection \<open>The receive ring\<close>

text \<open>
  What ends a call without a return value: a failed \<^verbatim>\<open>assert\<close>, a store outside the
  buffer it is aimed at, and a read of a local variable that was never assigned.
\<close>

datatype error = Assert_Failed | Out_Of_Bounds | Uninitialised_Read

text \<open>
  Modelled from the spec: \<^verbatim>\<open>xbee_interface_t\<close> of \<^verbatim>\<open>xbee.h\<close>, which is not part of
  the sources. The record has the fields of the ring buffer of section 3 of the
  specification under the names \<^verbatim>\<open>xbee.c\<close> uses: the memory, the index of the oldest
  byte, the number of valid bytes and the capacity. The transport is passed separately.
\<close>

record xbee_interface =
  recv :: "byte list"
  recv_idx :: nat
  recv_size :: nat
  recv_max_size :: nat

definition xbee_check :: "xbee_interface \<Rightarrow> bool" where
  "xbee_check xbee \<longleftrightarrow>
     recv_idx xbee < recv_max_size xbee \<and> recv_size xbee \<le> recv_max_size xbee"

definition xbee_drop_byte :: "xbee_interface \<Rightarrow> error + xbee_interface" where
  "xbee_drop_byte xbee =
     (if \<not> xbee_check xbee then Inl Assert_Failed
      else if \<not> recv_size xbee > 0 then Inl Assert_Failed
      else
        (let idx = recv_idx xbee + 1;
             idx' = (if idx \<ge> recv_max_size xbee then 0 else idx)
         in Inr (xbee\<lparr>recv_idx := idx', recv_size := recv_size xbee - 1\<rparr>)))"

definition xbee_get_byte :: "xbee_interface \<Rightarrow> nat \<Rightarrow> error + byte" where
  "xbee_get_byte xbee i =
     (if \<not> xbee_check xbee then Inl Assert_Failed
      else if \<not> i < recv_size xbee then Inl Assert_Failed
      else
        (let idx = size_add i (recv_idx xbee);
             idx' = (if idx \<ge> recv_max_size xbee then idx - recv_max_size xbee else idx)
         in if \<not> idx' < recv_max_size xbee then Inl Assert_Failed
            else Inr (recv xbee ! idx')))"

abbreviation XBEE_ERR_FOUND_START :: int where "XBEE_ERR_FOUND_START \<equiv> - 1"
abbreviation XBEE_NOT_ENOUGH_DATA :: int where "XBEE_NOT_ENOUGH_DATA \<equiv> - 2"

text \<open>
  \<^verbatim>\<open>xbee_get_next_byte(xbee, &idx, byte_out)\<close>. The result is the return code, the value
  of \<^verbatim>\<open>idx\<close> after the call and the last value stored through \<^verbatim>\<open>byte_out\<close>
  (\<open>None\<close> when the call stored nothing). The caller of the model performs the store.
\<close>

definition xbee_get_next_byte ::
  "xbee_interface \<Rightarrow> nat \<Rightarrow> error + (int \<times> nat \<times> byte option)" where
  "xbee_get_next_byte xbee idx =
     (if \<not> xbee_check xbee then Inl Assert_Failed
      else if idx \<ge> recv_size xbee then Inr (XBEE_NOT_ENOUGH_DATA, idx, None)
      else
        (case xbee_get_byte xbee idx of
           Inl e \<Rightarrow> Inl e
         | Inr b \<Rightarrow>
             if b = XBEE_FRAME_DELIM then Inr (XBEE_ERR_FOUND_START, idx, Some b)
             else if b = XBEE_FRAME_ESCAPE then
               (if idx + 1 \<ge> recv_size xbee then Inr (XBEE_NOT_ENOUGH_DATA, idx, Some b)
                else
                  (case xbee_get_byte xbee (idx + 1) of
                     Inl e \<Rightarrow> Inl e
                   | Inr b2 \<Rightarrow>
                       if b2 = XBEE_FRAME_DELIM then Inr (XBEE_ERR_FOUND_START, idx, Some b2)
                       else Inr (0, idx + 2, Some (b2 XOR 0x20))))
             else Inr (0, idx + 1, Some b)))"

function find_delim_loop :: "xbee_interface \<Rightarrow> nat \<Rightarrow> error + bool" where
  "find_delim_loop xbee i =
     (if i < recv_size xbee then
        (case xbee_get_byte xbee i of
           Inl e \<Rightarrow> Inl e
         | Inr b \<Rightarrow>
             if b = XBEE_FRAME_DELIM then Inr True else find_delim_loop xbee (i + 1))
      else Inr False)"
  by pat_completeness auto
termination
  by (relation "measure (\<lambda>(xbee, i). recv_size xbee - i)") auto

declare find_delim_loop.simps [simp del]

definition xbee_find_if_have_next_delim :: "xbee_interface \<Rightarrow> error + bool" where
  "xbee_find_if_have_next_delim xbee = find_delim_loop xbee 1"

text \<open>
  The store through \<^verbatim>\<open>&bytes_out[i]\<close>: inside the output buffer it updates the byte,
  outside it is an error.
\<close>

definition store_byte :: "byte list \<Rightarrow> nat \<Rightarrow> byte option \<Rightarrow> error + byte list" where
  "store_byte bytes_out i w =
     (case w of
        None \<Rightarrow> Inr bytes_out
      | Some v \<Rightarrow> if i < length bytes_out then Inr (bytes_out[i := v]) else Inl Out_Of_Bounds)"

text \<open>
  The body of the loop \<^verbatim>\<open>for(size_t i = 0; i < length+1; ++i)\<close> of
  \<^verbatim>\<open>xbee_decode_frame\<close>. Each \<^verbatim>\<open>continue\<close> in it belongs to this \<^verbatim>\<open>for\<close>
  loop: after the dropped byte the loop goes on with the next \<open>i\<close>, the same
  \<open>idx\<close> and the same accumulator.
\<close>

datatype payload_step =
    Payload_Return_Zero "byte list"
  | Payload_Next xbee_interface nat byte "byte list"

definition decode_payload_body ::
  "xbee_interface \<Rightarrow> nat \<Rightarrow> nat \<Rightarrow> byte \<Rightarrow> byte list \<Rightarrow> error + payload_step" where
  "decode_payload_body xbee i idx accum bytes_out =
     (case xbee_get_next_byte xbee idx of
        Inl e \<Rightarrow> Inl e
      | Inr (ret, idx', w) \<Rightarrow>
          (case store_byte bytes_out i w of
             Inl e \<Rightarrow> Inl e
           | Inr out' \<Rightarrow>
               if ret = XBEE_NOT_ENOUGH_DATA then
                 (if recv_size xbee = recv_max_size xbee then
                    (case xbee_drop_byte xbee of
                       Inl e \<Rightarrow> Inl e
                     | Inr xbee' \<Rightarrow> Inr (Payload_Next xbee' idx' accum out'))
                  else
                    (case xbee_find_if_have_next_delim xbee of
                       Inl e \<Rightarrow> Inl e
                     | Inr found \<Rightarrow>
                         if found then
                           (case xbee_drop_byte xbee of
                              Inl e \<Rightarrow> Inl e
                            | Inr xbee' \<Rightarrow> Inr (Payload_Next xbee' idx' accum out'))
                         else Inr (Payload_Return_Zero out')))
               else if ret \<noteq> 0 then
                 (case xbee_drop_byte xbee of
                    Inl e \<Rightarrow> Inl e
                  | Inr xbee' \<Rightarrow> Inr (Payload_Next xbee' idx' accum out'))
               else Inr (Payload_Next xbee idx' (accum + out' ! i) out')))"

datatype payload_result =
    Return_Zero xbee_interface "byte list"
  | Loop_Done xbee_interface nat byte "byte list"

function decode_payload_loop ::
  "xbee_interface \<Rightarrow> nat \<Rightarrow> nat \<Rightarrow> nat \<Rightarrow> byte \<Rightarrow> byte list \<Rightarrow> error + payload_result" where
  "decode_payload_loop xbee n i idx accum bytes_out =
     (if i < n then
        (case decode_payload_body xbee i idx accum bytes_out of
           Inl e \<Rightarrow> Inl e
         | Inr (Payload_Return_Zero out') \<Rightarrow> Inr (Return_Zero xbee out')
         | Inr (Payload_Next xbee' idx' accum' out') \<Rightarrow>
             decode_payload_loop xbee' n (i + 1) idx' accum' out')
      else Inr (Loop_Done xbee idx accum bytes_out))"
  by pat_completeness auto
termination
  by (relation "measure (\<lambda>(xbee, n, i, idx, accum, bytes_out). n - i)") auto

declare decode_payload_loop.simps [simp del]

lemma xbee_drop_byte_size:
  "xbee_drop_byte xbee = Inr xbee' \<Longrightarrow> recv_size xbee' < recv_size xbee"
  by (auto simp: xbee_drop_byte_def Let_def split: if_splits)


lemma decode_payload_body_size:
  assumes "decode_payload_body xbee i idx accum bytes_out = Inr (Payload_Next xbee' idx' accum' out')"
  shows "recv_size xbee' \<le> recv_size xbee"
proof -
  have d: "recv_size y \<le> recv_size xbee" if "xbee_drop_byte xbee = Inr y" for y
    using xbee_drop_byte_size[OF that] by simp
  show ?thesis
    using assms d unfolding decode_payload_body_def
    by (fastforce split: sum.splits prod.splits if_splits)
qed

lemma decode_payload_loop_size:
  "decode_payload_loop xbee n i idx accum bytes_out = Inr (Loop_Done xbee' idx' accum' out') \<Longrightarrow>
     recv_size xbee' \<le> recv_size xbee"
proof (induction xbee n i idx accum bytes_out rule: decode_payload_loop.induct)
  case (1 xbee n i idx accum bytes_out)
  show ?case
  proof (cases "i < n")
    case False
    with "1.prems" show ?thesis by (simp add: decode_payload_loop.simps[of xbee n i])
  next
    case True
    from "1.prems" True obtain x1 idx1 accum1 out1 where
      b: "decode_payload_body xbee i idx accum bytes_out = Inr (Payload_Next x1 idx1 accum1 out1)"
      and l: "decode_payload_loop x1 n (i + 1) idx1 accum1 out1 = Inr (Loop_Done xbee' idx' accum' out')"
      by (subst (asm) decode_payload_loop.simps)
         (auto split: sum.splits payload_step.splits)
    from "1.IH"[OF True b refl l] decode_payload_body_size[OF b]
    show ?thesis by simp
  qed
qed

text \<open>
  The body of \<^verbatim>\<open>while(xbee->recv_size >= 6)\<close>: one attempt at a frame that starts
  at the front of the ring. It ends the call with a return value, or goes round the loop
  again after a dropped byte.
\<close>

datatype scan_step =
    Scan_Return int xbee_interface "byte list"
  | Scan_Continue xbee_interface "byte list"

definition drop_and_continue :: "xbee_interface \<Rightarrow> byte list \<Rightarrow> error + scan_step" where
  "drop_and_continue xbee bytes_out =
     (case xbee_drop_byte xbee of
        Inl e \<Rightarrow> Inl e
      | Inr xbee' \<Rightarrow> Inr (Scan_Continue xbee' bytes_out))"

text \<open>
  \<^verbatim>\<open>len1\<close> and \<^verbatim>\<open>len2\<close> are locals without initialiser; they are read only after a
  call of \<^verbatim>\<open>xbee_get_next_byte\<close> that returned 0 and so stored a value.
\<close>

definition local_byte :: "byte option \<Rightarrow> error + byte" where
  "local_byte w = (case w of None \<Rightarrow> Inl Uninitialised_Read | Some v \<Rightarrow> Inr v)"

definition decode_frame_body ::
  "xbee_interface \<Rightarrow> nat \<Rightarrow> byte list \<Rightarrow> error + scan_step" where
  "decode_frame_body xbee frame_out_size bytes_out =
     (case xbee_get_byte xbee 0 of
        Inl e \<Rightarrow> Inl e
      | Inr b0 \<Rightarrow>
          if b0 \<noteq> XBEE_FRAME_DELIM then drop_and_continue xbee bytes_out
          else
            (case xbee_get_next_byte xbee 1 of
               Inl e \<Rightarrow> Inl e
             | Inr (ret1, idx1, w1) \<Rightarrow>
                 if ret1 \<noteq> 0 then drop_and_continue xbee bytes_out
                 else
                   (case xbee_get_next_byte xbee idx1 of
                      Inl e \<Rightarrow> Inl e
                    | Inr (ret2, idx2, w2) \<Rightarrow>
                        if ret2 \<noteq> 0 then drop_and_continue xbee bytes_out
                        else
                          (case local_byte w1 of
                             Inl e \<Rightarrow> Inl e
                           | Inr len1 \<Rightarrow>
                          (case local_byte w2 of
                             Inl e \<Rightarrow> Inl e
                           | Inr len2 \<Rightarrow>
                               (let length :: 16 word = push_bit 8 (ucast len1) OR ucast len2;
                                    required_bytes = unat length + 4
                                in if required_bytes > recv_max_size xbee \<or>
                                      unat length + 1 > frame_out_size
                                   then drop_and_continue xbee bytes_out
                                   else
                                     (case decode_payload_loop xbee (unat length + 1) 0 idx2 0
                                             bytes_out of
                                        Inl e \<Rightarrow> Inl e
                                      | Inr (Return_Zero xbee' out') \<Rightarrow>
                                          Inr (Scan_Return 0 xbee' out')
                                      | Inr (Loop_Done xbee' idx accum out') \<Rightarrow>
                                          if accum = 0xFF then
                                            (let ri = size_add (recv_idx xbee') idx;
                                                 ri' = (if ri \<ge> recv_max_size xbee'
                                                        then ri - recv_max_size xbee' else ri)
                                             in Inr (Scan_Return (int (unat length))
                                                  (xbee'\<lparr>recv_idx := ri',
                                                     recv_size := size_sub (recv_size xbee') idx\<rparr>)
                                                  out'))
                                          else drop_and_continue xbee' out')))))))"

lemma drop_and_continue_size:
  "drop_and_continue xbee bytes_out = Inr (Scan_Continue xbee' out') \<Longrightarrow>
     recv_size xbee' < recv_size xbee"
  by (auto simp: drop_and_continue_def split: sum.splits dest: xbee_drop_byte_size)

lemma decode_frame_body_size:
  assumes "decode_frame_body xbee frame_out_size bytes_out = Inr (Scan_Continue xbee' out')"
  shows "recv_size xbee' < recv_size xbee"
proof -
  have d: "recv_size y < recv_size xbee"
    if "drop_and_continue x1 o1 = Inr (Scan_Continue y o2)" "recv_size x1 \<le> recv_size xbee"
    for x1 o1 y o2
    using drop_and_continue_size[OF that(1)] that(2) by simp
  have l: "recv_size x1 \<le> recv_size xbee"
    if "decode_payload_loop xbee n i idx accum o1 = Inr (Loop_Done x1 idx' accum' o2)"
    for n i idx accum o1 x1 idx' accum' o2
    using decode_payload_loop_size[OF that] .
  show ?thesis
    using assms unfolding decode_frame_body_def Let_def
    by (fastforce split: sum.splits prod.splits if_splits payload_result.splits
        dest: l intro: d)
qed

function decode_frame_loop ::
  "xbee_interface \<Rightarrow> nat \<Rightarrow> byte list \<Rightarrow> error + (int \<times> xbee_interface \<times> byte list)" where
  "decode_frame_loop xbee frame_out_size bytes_out =
     (if recv_size xbee \<ge> 6 then
        (case decode_frame_body xbee frame_out_size bytes_out of
           Inl e \<Rightarrow> Inl e
         | Inr (Scan_Return r xbee' out') \<Rightarrow> Inr (r, xbee', out')
         | Inr (Scan_Continue xbee' out') \<Rightarrow> decode_frame_loop xbee' frame_out_size out')
      else Inr (0, xbee, bytes_out))"
  by pat_completeness auto
termination
  by (relation "measure (\<lambda>(xbee, frame_out_size, bytes_out). recv_size xbee)")
     (auto dest: decode_frame_body_size)

declare decode_frame_loop.simps [simp del]

definition xbee_decode_frame ::
  "xbee_interface \<Rightarrow> nat \<Rightarrow> byte list \<Rightarrow> error + (int \<times> xbee_interface \<times> byte list)" where
  "xbee_decode_frame xbee frame_out_size frame_out =
     (if \<not> recv_size xbee \<le> recv_max_size xbee then Inl Assert_Failed
      else decode_frame_loop xbee frame_out_size frame_out)"



subsection \<open>Filling the ring from the transport\<close>

text \<open>
  \<^verbatim>\<open>read(xbee->recv + start, nbyte)\<close>: the transport returns its count and the bytes
  it stored, which land in the ring's memory from \<open>start\<close> on. A transport that stores
  more than \<open>nbyte\<close> bytes writes outside the region it was given.
\<close>

definition uart_read_into ::
  "'u uart_read \<Rightarrow> 'u \<Rightarrow> byte list \<Rightarrow> nat \<Rightarrow> nat \<Rightarrow> error + (int \<times> byte list \<times> 'u)" where
  "uart_read_into rd u mem start nbyte =
     (case rd u nbyte of
        (ret, data, u') \<Rightarrow>
          if length data > nbyte then Inl Out_Of_Bounds
          else Inr (ret, take start mem @ data @ drop (start + length data) mem, u'))"

text \<open>
  The second half of \<^verbatim>\<open>xbee_fill_buffer\<close>: after a first read that filled the ring up
  to its end, the region from the start of the memory up to \<^verbatim>\<open>recv_idx\<close> is read too.
  \<open>read\<close> is the count of the first read, as a \<^verbatim>\<open>size_t\<close>.
\<close>

definition fill_wrapped_region ::
  "'u uart_read \<Rightarrow> xbee_interface \<Rightarrow> 'u \<Rightarrow> nat \<Rightarrow> error + (int \<times> xbee_interface \<times> 'u)" where
  "fill_wrapped_region rd xbee u read =
     (let read_start = 0;
          read_end = recv_idx xbee;
          read_len = read_end - read_start
      in if \<not> read_start < recv_max_size xbee then Inl Assert_Failed
         else if \<not> (read_end > read_start \<and> read_end \<le> recv_max_size xbee)
         then Inl Assert_Failed
         else if \<not> size_add read_start read_len \<le> recv_max_size xbee then Inl Assert_Failed
         else
           (case uart_read_into rd u (recv xbee) read_start read_len of
              Inl e \<Rightarrow> Inl e
            | Inr (ret, mem, u') \<Rightarrow>
                if ret > 0 then
                  Inr (int_of_size (size_add read (size_of_int ret)),
                       xbee\<lparr>recv := mem,
                            recv_size := size_add (recv_size xbee) (size_of_int ret)\<rparr>, u')
                else Inr (int_of_size read, xbee\<lparr>recv := mem\<rparr>, u')))"

definition xbee_fill_buffer ::
  "'u uart_read \<Rightarrow> xbee_interface \<Rightarrow> 'u \<Rightarrow> error + (int \<times> xbee_interface \<times> 'u)" where
  "xbee_fill_buffer rd xbee u =
     (if \<not> xbee_check xbee then Inl Assert_Failed
      else
        (let sum = size_add (recv_idx xbee) (recv_size xbee);
             read_start = (if sum < recv_max_size xbee then sum else sum - recv_max_size xbee);
             read_end = (if sum < recv_max_size xbee then recv_max_size xbee else recv_idx xbee)
         in if \<not> read_start < recv_max_size xbee then Inl Assert_Failed
            else if \<not> (read_end > read_start \<and> read_end \<le> recv_max_size xbee)
            then Inl Assert_Failed
            else
              (let read_len = read_end - read_start
               in if \<not> size_add read_start read_len \<le> recv_max_size xbee
                  then Inl Assert_Failed
                  else
                    (case uart_read_into rd u (recv xbee) read_start read_len of
                       Inl e \<Rightarrow> Inl e
                     | Inr (ret, mem, u') \<Rightarrow>
                         (let xbee' = xbee\<lparr>recv := mem,
                                recv_size := (if ret > 0
                                              then size_add (recv_size xbee) (size_of_int ret)
                                              else recv_size xbee)\<rparr>
                          in if size_of_int ret = read_len \<and> read_end \<noteq> recv_idx xbee' \<and>
                                recv_size xbee' < recv_max_size xbee'
                             then fill_wrapped_region rd xbee' u' (size_of_int ret)
                             else Inr (ret, xbee', u'))))))"


text \<open>The state \<^verbatim>\<open>xbee_open\<close> sets up before it starts the bring-up.\<close>

definition xbee_open_state :: "nat \<Rightarrow> byte list \<Rightarrow> xbee_interface" where
  "xbee_open_state recv_buffer_size recv_buffer =
     \<lparr>recv = recv_buffer, recv_idx = 0, recv_size = 0, recv_max_size = recv_buffer_size\<rparr>"

text \<open>
  Transports for the receive side. \<open>stream_read\<close> delivers the bytes of a pending
  list in order, as many as are asked for and there are. \<open>counting\<close> wraps any
  transport and counts the calls of \<^verbatim>\<open>read\<close>.
\<close>

definition stream_read :: "(byte list) uart_read" where
  "stream_read pending nbyte =
     (int (min nbyte (length pending)), take nbyte pending, drop nbyte pending)"



subsection \<open>The remote AT command builder\<close>

text \<open>
  Modelled from the spec: \<^verbatim>\<open>xbee_address_t\<close> of \<^verbatim>\<open>xbee.h\<close>, which is not part of the
  sources. Section 3 of the specification describes it as a tagged value with four
  variants; the code reads \<^verbatim>\<open>type\<close>, \<^verbatim>\<open>addr.address\<close> (64 bits) and
  \<^verbatim>\<open>addr.network_address\<close> (16 bits).
\<close>

datatype xbee_address =
    XBEE_64_BIT "64 word"
  | XBEE_16_BIT "16 word"
  | XBEE_64_BIT_BROADCAST
  | XBEE_16_BIT_BROADCAST

text \<open>
  \<^verbatim>\<open>uint8_t buf[15]\<close> is an automatic array without initialiser: what it holds before
  the assignments is not determined by the program. The model takes these 15 bytes as the
  argument \<open>stack\<close>.
\<close>

text \<open>
  The three branches on \<^verbatim>\<open>address->type\<close> and the \<^verbatim>\<open>assert\<close> of the last one.
\<close>

definition remote_at_address ::
  "byte list \<Rightarrow> xbee_address \<Rightarrow> error + byte list" where
  "remote_at_address buf address =
     (case address of
        XBEE_64_BIT a \<Rightarrow>
          Inr ((fold (\<lambda>i b. b[6 + i - 4 := ucast (drop_bit (64 - 8 * (i + 1)) a AND 0xFF)])
                  [0..<8] buf)[14 - 4 := 0xFF, 15 - 4 := 0xFE])
      | XBEE_16_BIT n \<Rightarrow>
          Inr (buf[14 - 4 := ucast (drop_bit 8 n), 15 - 4 := ucast (n AND 0xFF)])
      | XBEE_64_BIT_BROADCAST \<Rightarrow>
          Inr ((fold (\<lambda>i b. b[6 + i - 4 := 0]) [0..<6] buf)
                 [12 - 4 := 0xFF, 13 - 4 := 0xFF, 14 - 4 := 0xFF, 15 - 4 := 0xFE])
      | XBEE_16_BIT_BROADCAST \<Rightarrow> Inl Assert_Failed)"

definition xbee_remote_at_command ::
  "'u uart_write \<Rightarrow> 'u \<Rightarrow> byte list \<Rightarrow> xbee_address \<Rightarrow> byte \<Rightarrow> byte \<Rightarrow> string \<Rightarrow>
     byte list \<Rightarrow> error + (int \<times> 'u)" where
  "xbee_remote_at_command wr u stack address options frame_id at_command param =
     (let s = xbee_start_frame wr u (of_nat (15 + length param)) in
      if fst s \<noteq> 0 then Inr (fst s, fst (snd s))
      else
        (case remote_at_address (stack[0 := XBEE_REMOTE_AT_COMMAND, 5 - 4 := frame_id])
                address of
           Inl e \<Rightarrow> Inl e
         | Inr buf1 \<Rightarrow>
             (let buf = buf1[16 - 4 := options,
                             17 - 4 := byte_of_char (at_command ! 0),
                             18 - 4 := byte_of_char (at_command ! 1)];
                  w = xbee_write_bytes wr (fst (snd s)) buf (snd (snd s)) in
              if fst w \<noteq> 0 then Inr (fst w, fst (snd w))
              else
                (let w2 = xbee_write_bytes wr (fst (snd w)) param (snd (snd w)) in
                 if fst w2 \<noteq> 0 then Inr (fst w2, fst (snd w2))
                 else Inr (xbee_finish_frame wr (fst (snd w2)) (snd (snd w2)))))))"

subsection \<open>The response parser\<close>

text \<open>
  Modelled from the spec: the response API identifiers, the two error codes and
  \<^verbatim>\<open>xbee_parsed_frame_t\<close> of \<^verbatim>\<open>xbee.h\<close>, which is not part of the sources. The
  identifiers are a parameter of the parser. They are the labels of one \<^verbatim>\<open>switch\<close>,
  hence pairwise distinct. The error codes are the two error kinds of section 7 of the
  specification, both different from the success code 0. The parsed frame is the tagged
  union of section 3 with the fields the code assigns; the data slices, which the C
  returns as pointers into the payload, are the lists of the bytes they cover.
\<close>

record xbee_api_ids =
  XBEE_MODEM_STATUS :: byte
  XBEE_TRANSMIT_STATUS :: byte
  XBEE_AT_RESPONSE :: byte
  XBEE_REMOTE_AT_RESPONSE :: byte
  XBEE_RECEIVE :: byte
  XBEE_RECEIVE_16_BIT :: byte

definition ids_distinct :: "xbee_api_ids \<Rightarrow> bool" where
  "ids_distinct ids \<longleftrightarrow>
     distinct [XBEE_MODEM_STATUS ids, XBEE_TRANSMIT_STATUS ids, XBEE_AT_RESPONSE ids,
               XBEE_REMOTE_AT_RESPONSE ids, XBEE_RECEIVE ids, XBEE_RECEIVE_16_BIT ids]"

datatype parse_error = XBEE_WRONG_LENGTH_FOR_API | XBEE_UNKNOWN_API_ID

datatype frame_union =
    Status (status : byte)
  | At_Command_Response
      (at_command : "byte list") (status : byte) (data_size : nat) (data : "byte list")
      (responder_address : "64 word option") (responder_network_address : "16 word")
  | Receive
      (responder_address : "64 word option") (responder_network_address : "16 word")
      (rssi : byte) (options : byte) (packet_size : nat) (packet_data : "byte list")

record xbee_parsed_frame =
  api_id :: byte
  frame_id :: byte
  frame :: frame_union

text \<open>
  The C expression \<^verbatim>\<open>b << n\<close> for a \<^verbatim>\<open>uint8_t b\<close>, promoted to a 32-bit \<^verbatim>\<open>int\<close>.
  The C standard defines it only for a shift count below the width of \<^verbatim>\<open>int\<close> and a
  result that \<^verbatim>\<open>int\<close> can hold; the model has no value otherwise.
\<close>

definition c_shl_int :: "byte \<Rightarrow> nat \<Rightarrow> int option" where
  "c_shl_int b n =
     (if n < 32 \<and> uint b * 2 ^ n < 2 ^ 31 then Some (uint b * 2 ^ n) else None)"

text \<open>
  The address loop \<^verbatim>\<open>for(size_t i = 0; i < 8; ++i) addr |= b[k+i] << (64-8*(i-1))\<close>.
  The shift count is computed in \<^verbatim>\<open>size_t\<close>: \<open>72, 64, ..., 16\<close>. The \<^verbatim>\<open>int\<close>
  is converted to \<^verbatim>\<open>uint64_t\<close> for the \<^verbatim>\<open>|=\<close>.
\<close>

definition addr_shift :: "nat \<Rightarrow> nat" where
  "addr_shift i = size_sub 64 ((8 * size_sub i 1) mod 2 ^ 64)"

definition parse_address :: "byte list \<Rightarrow> nat \<Rightarrow> 64 word option" where
  "parse_address b k =
     fold (\<lambda>i addr.
             case addr of
               None \<Rightarrow> None
             | Some a \<Rightarrow>
                 (case c_shl_int (b ! (k + i)) (addr_shift i) of
                    None \<Rightarrow> None
                  | Some v \<Rightarrow> Some (a OR word_of_int v)))
          [0..<8] (Some 0)"

text \<open>
  \<^verbatim>\<open>xbee_parse_frame\<close>. The \<^verbatim>\<open>memset\<close> leaves every field that a case does not
  assign at zero. The return code does not depend on the value of an address. In the
  \<^verbatim>\<open>XBEE_RECEIVE_16_BIT\<close> case the field \<^verbatim>\<open>responder_network_address\<close> is assigned
  twice, first \<^verbatim>\<open>b[1] << 8\<close> and then \<^verbatim>\<open>b[2]\<close>; the two bindings of
  \<open>network_address\<close> are these assignments.
\<close>

definition xbee_parse_frame ::
  "xbee_api_ids \<Rightarrow> byte list \<Rightarrow> parse_error + xbee_parsed_frame" where
  "xbee_parse_frame ids b =
     (let frame_size = length b in
      if frame_size < 2 then Inl XBEE_WRONG_LENGTH_FOR_API
      else if b ! 0 = XBEE_MODEM_STATUS ids then
        (if frame_size \<noteq> 2 then Inl XBEE_WRONG_LENGTH_FOR_API
         else Inr \<lparr>api_id = b ! 0, frame_id = 0, frame = Status (b ! 1)\<rparr>)
      else if b ! 0 = XBEE_TRANSMIT_STATUS ids then
        (if frame_size \<noteq> 3 then Inl XBEE_WRONG_LENGTH_FOR_API
         else Inr \<lparr>api_id = b ! 0, frame_id = b ! 1, frame = Status (b ! 2)\<rparr>)
      else if b ! 0 = XBEE_AT_RESPONSE ids then
        (if frame_size < 5 then Inl XBEE_WRONG_LENGTH_FOR_API
         else Inr \<lparr>api_id = b ! 0, frame_id = b ! 1,
                   frame = At_Command_Response [b ! 2, b ! 3, 0] (b ! 4)
                             (frame_size - 5) (drop 5 b) (Some 0) 0\<rparr>)
      else if b ! 0 = XBEE_REMOTE_AT_RESPONSE ids then
        (if frame_size < 15 then Inl XBEE_WRONG_LENGTH_FOR_API
         else Inr \<lparr>api_id = b ! 0, frame_id = b ! 1,
                   frame = At_Command_Response [b ! 12, b ! 13, 0] (b ! 14)
                             (frame_size - 15) (drop 15 b) (parse_address b 2)
                             ((0 OR push_bit 8 (ucast (b ! 10))) OR ucast (b ! 11))\<rparr>)
      else if b ! 0 = XBEE_RECEIVE ids then
        (if frame_size < 11 then Inl XBEE_WRONG_LENGTH_FOR_API
         else Inr \<lparr>api_id = b ! 0, frame_id = 0,
                   frame = Receive (parse_address b 1) 0 (b ! 9) (b ! 10)
                             (frame_size - 11) (drop 11 b)\<rparr>)
      else if b ! 0 = XBEE_RECEIVE_16_BIT ids then
        (if frame_size < 5 then Inl XBEE_WRONG_LENGTH_FOR_API
         else
           (let network_address = push_bit 8 (ucast (b ! 1)) :: 16 word;
                network_address = ucast (b ! 2) :: 16 word
            in Inr \<lparr>api_id = b ! 0, frame_id = 0,
                      frame = Receive (Some 0) network_address (b ! 3) (b ! 4)
                                (frame_size - 5) (drop 5 b)\<rparr>))
      else Inl XBEE_UNKNOWN_API_ID)"

text \<open>The identifiers of the XBee 802.15.4 API, for evaluating the parser.\<close>

definition xbee_series1_ids :: xbee_api_ids where
  "xbee_series1_ids =
     \<lparr>XBEE_MODEM_STATUS = 0x8A, XBEE_TRANSMIT_STATUS = 0x89, XBEE_AT_RESPONSE = 0x88,
      XBEE_REMOTE_AT_RESPONSE = 0x97, XBEE_RECEIVE = 0x80, XBEE_RECEIVE_16_BIT = 0x81\<rparr>"


section \<open>Properties of the emitter\<close>

lemma stuffed_Nil [simp]: "stuffed [] = []"
  by (simp add: stuffed_def)

lemma stuffed_Cons [simp]: "stuffed (b # bs) = escaped b @ stuffed bs"
  by (simp add: stuffed_def)

lemma stuffed_append: "stuffed (xs @ ys) = stuffed xs @ stuffed ys"
  by (simp add: stuffed_def)

lemma stuffed_plain:
  "\<forall>b \<in> set bs. \<not> needs_escape b \<Longrightarrow> stuffed bs = bs"
  by (induction bs) (simp_all add: escaped_def)

lemma take_drop_snoc:
  assumes "off \<le> i" and "i < length bytes"
  shows "take (Suc i - off) (drop off bytes) = take (i - off) (drop off bytes) @ [bytes ! i]"
proof -
  have "Suc i - off = Suc (i - off)" using assms by simp
  moreover have "i - off < length (drop off bytes)" using assms by simp
  moreover have "drop off bytes ! (i - off) = bytes ! i" using assms by simp
  ultimately show ?thesis by (simp add: take_Suc_conv_app_nth)
qed

text \<open>
  The recording transport reports a block of fewer than \<open>2 ^ 31\<close> bytes as written in
  full; the count of a block of \<open>2 ^ 31\<close> bytes does not compare equal to its length.
\<close>

lemma size_of_int_of_size: "n < 2 ^ 31 \<Longrightarrow> size_of_int (int_of_size n) = n"
  by (simp add: size_of_int_def int_of_size_def)

lemma tx_write_accepts:
  "length buf < 2 ^ 31 \<Longrightarrow>
     size_of_int (fst (tx_write sent buf)) = length buf \<and> snd (tx_write sent buf) = sent @ buf"
  by (simp add: tx_write_def size_of_int_of_size)

lemma sum_list_replicate_0: "sum_list (replicate n (0 :: byte)) = 0"
  by (induction n) simp_all

text \<open>
  On a run of bytes that need no escape the loop only adds to the accumulator, and the
  run goes to the transport in one block, whatever the transport.
\<close>

lemma write_bytes_loop_plain:
  assumes "i \<le> length bytes" and "\<forall>b \<in> set (drop i bytes). \<not> needs_escape b"
  shows "write_bytes_loop wr bytes i off u accum =
           (let r = wr u (take (length bytes - off) (drop off bytes))
            in if size_of_int (fst r) \<noteq> length bytes - off
               then (-13, snd r, accum + sum_list (drop i bytes))
               else (0, snd r, accum + sum_list (drop i bytes)))"
  using assms
proof (induction "length bytes - i" arbitrary: i accum)
  case 0
  then show ?case by (subst write_bytes_loop.simps) (simp add: Let_def)
next
  case (Suc n)
  then have lt: "i < length bytes" by simp
  have plain: "\<not> needs_escape (bytes ! i)"
    using Suc.prems(2) lt by (simp flip: Cons_nth_drop_Suc)
  have rest: "\<forall>b \<in> set (drop (Suc i) bytes). \<not> needs_escape b"
    using Suc.prems(2) lt by (simp flip: Cons_nth_drop_Suc)
  have sum: "sum_list (drop i bytes) = bytes ! i + sum_list (drop (Suc i) bytes)"
    using lt by (simp flip: Cons_nth_drop_Suc)
  have n: "n = length bytes - Suc i" using Suc.hyps(2) by simp
  have ih: "write_bytes_loop wr bytes (Suc i) off u (accum + bytes ! i) =
           (let r = wr u (take (length bytes - off) (drop off bytes))
            in if size_of_int (fst r) \<noteq> length bytes - off
               then (-13, snd r, (accum + bytes ! i) + sum_list (drop (Suc i) bytes))
               else (0, snd r, (accum + bytes ! i) + sum_list (drop (Suc i) bytes)))"
    using lt rest by (intro Suc.hyps(1) n) simp_all
  show ?case
    using lt plain ih
    by (subst write_bytes_loop.simps) (simp add: Let_def sum add.assoc)
qed

text \<open>
  The loop invariant on the recording transport: the bytes between \<open>off\<close> and \<open>i\<close>
  are pending and need no escape.
\<close>

lemma write_bytes_loop_tx:
  assumes "off \<le> i" and "i \<le> length bytes"
    and "\<forall>b \<in> set (take (i - off) (drop off bytes)). \<not> needs_escape b"
    and small: "length bytes < 2 ^ 31"
  shows "write_bytes_loop tx_write bytes i off sent accum =
           (0, sent @ stuffed (drop off bytes), accum + sum_list (drop i bytes))"
  using assms
proof (induction "length bytes - i" arbitrary: i off sent accum)
  case 0
  then have i: "i = length bytes" by simp
  have st: "stuffed (drop off bytes) = drop off bytes"
    using "0.prems"(3) i by (intro stuffed_plain) simp
  have acc: "size_of_int (fst (tx_write sent (drop off bytes))) = length bytes - off"
      "snd (tx_write sent (drop off bytes)) = sent @ drop off bytes"
    using tx_write_accepts[of "drop off bytes" sent] small by simp_all
  show ?case
    using i acc st by (subst write_bytes_loop.simps) (simp add: Let_def)
next
  case (Suc n)
  then have lt: "i < length bytes" by simp
  have run: "size_of_int (fst (tx_write sent (take (i - off) (drop off bytes)))) = i - off"
      "snd (tx_write sent (take (i - off) (drop off bytes))) =
         sent @ take (i - off) (drop off bytes)"
    using tx_write_accepts[of "take (i - off) (drop off bytes)" sent] small lt Suc.prems(1)
    by simp_all
  have pair: "size_of_int (fst (tx_write s0 [0x7D, bytes ! i XOR 0x20])) = 2"
      "snd (tx_write s0 [0x7D, bytes ! i XOR 0x20]) = s0 @ [0x7D, bytes ! i XOR 0x20]" for s0
    using tx_write_accepts[of "[0x7D, bytes ! i XOR 0x20]" s0] by simp_all
  have split: "drop off bytes =
      take (i - off) (drop off bytes) @ bytes ! i # drop (Suc i) bytes"
    using lt Suc.prems(1)
    by (metis Cons_nth_drop_Suc append_take_drop_id drop_drop le_add_diff_inverse2)
  have pend: "stuffed (take (i - off) (drop off bytes)) = take (i - off) (drop off bytes)"
    using Suc.prems(3) by (intro stuffed_plain)
  have sum: "sum_list (drop i bytes) = bytes ! i + sum_list (drop (Suc i) bytes)"
    using lt by (simp flip: Cons_nth_drop_Suc)
  have n: "n = length bytes - Suc i" using Suc.hyps(2) by simp
  show ?case
  proof (cases "needs_escape (bytes ! i)")
    case esc: True
    have ih: "write_bytes_loop tx_write bytes (Suc i) (Suc i)
            (sent @ take (i - off) (drop off bytes) @ [0x7D, bytes ! i XOR 0x20])
            (accum + bytes ! i) =
          (0, (sent @ take (i - off) (drop off bytes) @ [0x7D, bytes ! i XOR 0x20])
                @ stuffed (drop (Suc i) bytes),
           (accum + bytes ! i) + sum_list (drop (Suc i) bytes))"
      using lt small by (intro Suc.hyps(1) n) simp_all
    have st: "stuffed (drop off bytes) =
        take (i - off) (drop off bytes) @ [0x7D, bytes ! i XOR 0x20] @
        stuffed (drop (Suc i) bytes)"
      by (subst split) (simp add: stuffed_append pend escaped_def esc)
    show ?thesis
      using lt esc ih
      by (subst write_bytes_loop.simps)
         (simp add: run pair Let_def st sum add.assoc)
  next
    case plain: False
    have pre: "\<forall>b \<in> set (take (Suc i - off) (drop off bytes)). \<not> needs_escape b"
      using Suc.prems(1,3) lt plain by (simp add: take_drop_snoc)
    have "write_bytes_loop tx_write bytes (Suc i) off sent (accum + bytes ! i) =
          (0, sent @ stuffed (drop off bytes),
           (accum + bytes ! i) + sum_list (drop (Suc i) bytes))"
      using lt Suc.prems(1) pre small
      by (intro Suc.hyps(1) n) simp_all
    then show ?thesis
      using lt plain
      by (subst write_bytes_loop.simps) (simp add: Let_def sum add.assoc)
  qed
qed

lemma xbee_write_bytes_tx:
  "length buf < 2 ^ 31 \<Longrightarrow>
   xbee_write_bytes tx_write sent buf accum =
     (0, sent @ stuffed buf, accum + sum_list buf)"
  unfolding xbee_write_bytes_def
  using write_bytes_loop_tx[of 0 0 buf sent accum] by simp

lemma xbee_start_frame_tx:
  "xbee_start_frame tx_write sent L =
     (0, sent @ XBEE_FRAME_DELIM # stuffed [ucast (drop_bit 8 L), ucast (L AND 0xFF)], 0)"
proof -
  have d: "tx_write sent [XBEE_FRAME_DELIM] = (1, sent @ [XBEE_FRAME_DELIM])"
    by (simp add: tx_write_def int_of_size_def)
  show ?thesis
    by (simp add: xbee_start_frame_def d xbee_write_bytes_tx Let_def)
qed

lemma xbee_finish_frame_tx:
  "xbee_finish_frame tx_write sent accum = (0, sent @ escaped (0xFF - accum))"
  by (simp add: xbee_finish_frame_def xbee_write_bytes_tx Let_def)

lemma xbee_send_frame_tx:
  "length P < 2 ^ 31 \<Longrightarrow>
   xbee_send_frame tx_write sent P =
     (0, sent @ XBEE_FRAME_DELIM #
           stuffed [ucast (drop_bit 8 (of_nat (length P) :: 16 word)),
                    ucast ((of_nat (length P) :: 16 word) AND 0xFF)] @
           stuffed P @ escaped (0xFF - sum_list P))"
  by (simp add: xbee_send_frame_def xbee_start_frame_tx xbee_write_bytes_tx
      xbee_finish_frame_tx Let_def)

lemma xbee_at_command_tx:
  "length param < 2 ^ 31 \<Longrightarrow>
   xbee_at_command tx_write sent fid cmd param =
     (0, sent @ XBEE_FRAME_DELIM #
           stuffed [ucast (drop_bit 8 (of_nat (4 + length param) :: 16 word)),
                    ucast ((of_nat (4 + length param) :: 16 word) AND 0xFF)] @
           stuffed ([XBEE_AT_COMMAND, fid, byte_of_char (cmd ! 0),
                     byte_of_char (cmd ! 1)] @ param) @
           escaped (0xFF - sum_list ([XBEE_AT_COMMAND, fid,
                     byte_of_char (cmd ! 0), byte_of_char (cmd ! 1)] @ param)))"
  by (simp add: xbee_at_command_def xbee_start_frame_tx xbee_write_bytes_tx
      xbee_finish_frame_tx Let_def stuffed_append add.assoc)

lemma escaped_alt:
  "escaped b = (if b = 0x7E \<or> b = 0x7D \<or> b = 0x11 \<or> b = 0x13
                then [0x7D, b XOR 0x20] else [b])"
  by (simp add: escaped_def needs_escape_def)

lemmas emit_eval = escaped_def needs_escape_def byte_of_char_def

subsection \<open>C6: the simple AT frame and the checksum\<close>

text \<open>
  C6, as stated, asks that \<^verbatim>\<open>xbee_at_command\<close> with frame id \<open>0x52\<close>, command
  \<open>NJ\<close> and no parameter emits \<open>7E 00 04 08 52 4E 4A 09\<close>, and that in general the
  final emitted byte is \<open>0xFF\<close> minus the payload sum.
  \<^item> The code emits the checksum \<open>0D\<close>: the sum of the payload \<open>08 52 4E 4A\<close> is
    \<open>F2\<close>, and the length byte \<open>04\<close> is not part of it.
  \<^item> With frame id \<open>0xE1\<close> the payload sum is \<open>0x81\<close> and the checksum \<open>0x7E\<close>,
    which goes out escaped: the final byte is \<open>0x5E\<close>.
  \<^item> With a parameter of \<open>2 ^ 31\<close> zero bytes the count of the parameter block does not
    fit \<^verbatim>\<open>int ret\<close>, \<^verbatim>\<open>ret != to_write\<close> holds although the transport took the
    whole block, and the call returns \<open>-13\<close> before any checksum is written.
\<close>

theorem at_command_s1_counterexample:
  "xbee_at_command tx_write [] 0x52 ''NJ'' [] \<noteq>
     (0, [0x7E, 0x00, 0x04, 0x08, 0x52, 0x4E, 0x4A, 0x09]) \<and>
   last (snd (xbee_at_command tx_write [] 0xE1 ''NJ'' [])) \<noteq>
     0xFF - sum_list [0x08, 0xE1, byte_of_char CHR ''N'', byte_of_char CHR ''J''] \<and>
   xbee_at_command tx_write [] 0x52 ''NJ'' (replicate 2147483648 0) =
     (- 13, [0x7E, 0x00, 0x04, 0x08, 0x52, 0x4E, 0x4A] @ replicate 2147483648 0)"
proof (intro conjI)
  have p: "xbee_write_bytes tx_write sent (replicate 2147483648 0) accum =
      (- 13, sent @ replicate 2147483648 0, accum)" for sent accum
    unfolding xbee_write_bytes_def
    by (subst write_bytes_loop_plain)
       (simp_all add: needs_escape_def tx_write_def int_of_size_def size_of_int_def
          sum_list_replicate_0)
  show "xbee_at_command tx_write [] 0x52 ''NJ'' (replicate 2147483648 0) =
     (- 13, [0x7E, 0x00, 0x04, 0x08, 0x52, 0x4E, 0x4A] @ replicate 2147483648 0)"
    by (simp add: xbee_at_command_def xbee_start_frame_tx xbee_write_bytes_tx p Let_def
        emit_eval)
qed (simp_all add: xbee_at_command_tx emit_eval)

text \<open>
  C6, amended: the frame of S1 is \<open>7E 00 04 08 52 4E 4A 0D\<close>; and for every frame id,
  two-character command and parameter of fewer than \<open>2 ^ 31\<close> bytes, the call returns 0
  and the accepting transport receives the delimiter, the two stuffed length bytes, the
  stuffed payload (header, then parameter) and last the stuffed form of \<open>0xFF\<close> minus
  the sum modulo 256 of the payload bytes: that byte itself, or \<open>0x7D\<close> and the byte
  XOR \<open>0x20\<close> when it lies in the escape set. The length bytes and the checksum byte are
  not part of the sum.
\<close>

theorem at_command_frame:
  assumes "2 \<le> length cmd" and "length param < 2 ^ 31"
  shows "xbee_at_command tx_write [] 0x52 ''NJ'' [] =
           (0, [0x7E, 0x00, 0x04, 0x08, 0x52, 0x4E, 0x4A, 0x0D]) \<and>
         xbee_at_command tx_write sent fid cmd param =
           (0, sent @ [XBEE_FRAME_DELIM] @
               stuffed [ucast (drop_bit 8 (of_nat (4 + length param) :: 16 word)),
                        ucast ((of_nat (4 + length param) :: 16 word) AND 0xFF)] @
               stuffed ([XBEE_AT_COMMAND, fid, byte_of_char (cmd ! 0),
                         byte_of_char (cmd ! 1)] @ param) @
               (let cs = 0xFF - sum_list ([XBEE_AT_COMMAND, fid,
                           byte_of_char (cmd ! 0), byte_of_char (cmd ! 1)] @ param)
                in if cs = 0x7E \<or> cs = 0x7D \<or> cs = 0x11 \<or> cs = 0x13
                   then [0x7D, cs XOR 0x20] else [cs]))"
proof
  show "xbee_at_command tx_write [] 0x52 ''NJ'' [] =
           (0, [0x7E, 0x00, 0x04, 0x08, 0x52, 0x4E, 0x4A, 0x0D])"
    by (simp add: xbee_at_command_tx emit_eval)
next
  show "xbee_at_command tx_write sent fid cmd param =
           (0, sent @ [XBEE_FRAME_DELIM] @
               stuffed [ucast (drop_bit 8 (of_nat (4 + length param) :: 16 word)),
                        ucast ((of_nat (4 + length param) :: 16 word) AND 0xFF)] @
               stuffed ([XBEE_AT_COMMAND, fid, byte_of_char (cmd ! 0),
                         byte_of_char (cmd ! 1)] @ param) @
               (let cs = 0xFF - sum_list ([XBEE_AT_COMMAND, fid,
                           byte_of_char (cmd ! 0), byte_of_char (cmd ! 1)] @ param)
                in if cs = 0x7E \<or> cs = 0x7D \<or> cs = 0x11 \<or> cs = 0x13
                   then [0x7D, cs XOR 0x20] else [cs]))"
    by (simp only: xbee_at_command_tx[OF assms(2)] escaped_alt Let_def append_Cons append_Nil)
qed

text \<open>
  The amended claim at a frame whose checksum is itself escaped: frame id \<open>0xE1\<close>
  and the parameter \<open>01\<close> give the payload sum \<open>0x82\<close> and the checksum \<open>0x7D\<close>,
  sent as \<open>7D 5D\<close>.
\<close>

theorem at_command_frame_witness:
  "2 \<le> length ''NJ'' \<and> length [0x01 :: byte] < 2 ^ 31 \<and>
   xbee_at_command tx_write [] 0xE1 ''NJ'' [0x01] =
     (0, [0x7E, 0x00, 0x05, 0x08, 0xE1, 0x4E, 0x4A, 0x01, 0x7D, 0x5D])"
  using at_command_frame[of "''NJ''" "[0x01]" "[]" "0xE1"]
  by (simp add: emit_eval)

subsection \<open>C7: escape stuffing on output\<close>

text \<open>
  C7, as stated, asks that every byte written after the start delimiter goes out
  stuffed, and that \<^verbatim>\<open>xbee_at_command\<close> with frame id \<open>0x11\<close>, command \<open>NJ\<close> and
  no parameter emits \<open>7E 00 04 08 7D 31 4E 4A 4A\<close>.
  \<^item> The frame id is escaped as claimed, but the checksum the code emits is \<open>4E\<close>: the
    payload \<open>08 11 4E 4A\<close> sums to \<open>B1\<close>.
  \<^item> For a payload of \<open>2 ^ 31\<close> zero bytes \<^verbatim>\<open>xbee_send_frame\<close> returns \<open>-13\<close>
    after the payload block: the count of the block does not fit \<^verbatim>\<open>int ret\<close>, and the
    checksum byte is never written.
\<close>

theorem at_command_s2_counterexample:
  "xbee_at_command tx_write [] 0x11 ''NJ'' [] \<noteq>
     (0, [0x7E, 0x00, 0x04, 0x08, 0x7D, 0x31, 0x4E, 0x4A, 0x4A]) \<and>
   xbee_send_frame tx_write [] (replicate 2147483648 0) =
     (- 13, [0x7E, 0x00, 0x00] @ replicate 2147483648 0)"
proof
  show "xbee_at_command tx_write [] 0x11 ''NJ'' [] \<noteq>
     (0, [0x7E, 0x00, 0x04, 0x08, 0x7D, 0x31, 0x4E, 0x4A, 0x4A])"
    by (simp add: xbee_at_command_tx emit_eval)
  have p: "xbee_write_bytes tx_write sent (replicate 2147483648 0) accum =
      (- 13, sent @ replicate 2147483648 0, accum)" for sent accum
    unfolding xbee_write_bytes_def
    by (subst write_bytes_loop_plain)
       (simp_all add: needs_escape_def tx_write_def int_of_size_def size_of_int_def
          sum_list_replicate_0)
  show "xbee_send_frame tx_write [] (replicate 2147483648 0) =
     (- 13, [0x7E, 0x00, 0x00] @ replicate 2147483648 0)"
    by (simp add: xbee_send_frame_def xbee_start_frame_tx p Let_def emit_eval)
qed

text \<open>
  C7, amended: for a buffer of fewer than \<open>2 ^ 31\<close> bytes \<^verbatim>\<open>xbee_write_bytes\<close>
  returns 0 and hands the accepting transport, for each byte in turn, the pair \<open>0x7D\<close>,
  byte XOR \<open>0x20\<close> when the byte is \<open>0x7E\<close>, \<open>0x7D\<close>, \<open>0x11\<close> or \<open>0x13\<close>, and
  the byte itself otherwise; a whole frame with a payload of fewer than \<open>2 ^ 31\<close> bytes
  is the unescaped delimiter followed by the length bytes, the payload and the checksum
  written this way; and the frame of S2 is \<open>7E 00 04 08 7D 31 4E 4A 4E\<close>.
\<close>

theorem write_bytes_stuffing:
  assumes "length buf < 2 ^ 31" and "length P < 2 ^ 31"
  shows "xbee_write_bytes tx_write sent buf accum =
     (0, sent @ concat (map (\<lambda>b. if b = 0x7E \<or> b = 0x7D \<or> b = 0x11 \<or> b = 0x13
                                 then [0x7D, b XOR 0x20] else [b]) buf),
      accum + sum_list buf) \<and>
   xbee_send_frame tx_write sent P =
     (0, sent @ [0x7E] @
         concat (map (\<lambda>b. if b = 0x7E \<or> b = 0x7D \<or> b = 0x11 \<or> b = 0x13
                           then [0x7D, b XOR 0x20] else [b])
                     ([ucast (drop_bit 8 (of_nat (length P) :: 16 word)),
                       ucast ((of_nat (length P) :: 16 word) AND 0xFF)] @ P @
                      [0xFF - sum_list P]))) \<and>
   xbee_at_command tx_write [] 0x11 ''NJ'' [] =
     (0, [0x7E, 0x00, 0x04, 0x08, 0x7D, 0x31, 0x4E, 0x4A, 0x4E])"
proof -
  have st: "stuffed bs = concat (map (\<lambda>b. if b = 0x7E \<or> b = 0x7D \<or> b = 0x11 \<or> b = 0x13
                                 then [0x7D, b XOR 0x20] else [b]) bs)" for bs
    by (induction bs) (simp_all add: escaped_def needs_escape_def)
  have A: "xbee_write_bytes tx_write sent buf accum =
     (0, sent @ concat (map (\<lambda>b. if b = 0x7E \<or> b = 0x7D \<or> b = 0x11 \<or> b = 0x13
                                 then [0x7D, b XOR 0x20] else [b]) buf),
      accum + sum_list buf)"
    by (simp add: xbee_write_bytes_tx[OF assms(1)] st)
  have "stuffed [ucast (drop_bit 8 (of_nat (length P) :: 16 word)),
                 ucast ((of_nat (length P) :: 16 word) AND 0xFF)] @
        stuffed P @ escaped (0xFF - sum_list P) =
        stuffed ([ucast (drop_bit 8 (of_nat (length P) :: 16 word)),
                  ucast ((of_nat (length P) :: 16 word) AND 0xFF)] @ P @
                 [0xFF - sum_list P])"
    by (simp add: stuffed_append)
  then have B: "xbee_send_frame tx_write sent P =
     (0, sent @ [0x7E] @
         concat (map (\<lambda>b. if b = 0x7E \<or> b = 0x7D \<or> b = 0x11 \<or> b = 0x13
                           then [0x7D, b XOR 0x20] else [b])
                     ([ucast (drop_bit 8 (of_nat (length P) :: 16 word)),
                       ucast ((of_nat (length P) :: 16 word) AND 0xFF)] @ P @
                      [0xFF - sum_list P])))"
    unfolding xbee_send_frame_tx[OF assms(2)] st[symmetric] by simp
  have C: "xbee_at_command tx_write [] 0x11 ''NJ'' [] =
     (0, [0x7E, 0x00, 0x04, 0x08, 0x7D, 0x31, 0x4E, 0x4A, 0x4E])"
    by (simp add: xbee_at_command_tx emit_eval)
  show ?thesis using A B C by (intro conjI)
qed

text \<open>
  An instance: a buffer with all four bytes of the escape set, and the frame of the
  payload \<open>7D 82\<close>, whose first byte is escaped and whose checksum is \<open>00\<close>.
\<close>

theorem write_bytes_stuffing_witness:
  "length [0x7E, 0x01, 0x7D, 0x11, 0x13 :: byte] < 2 ^ 31 \<and>
   length [0x7D, 0x82 :: byte] < 2 ^ 31 \<and>
   xbee_write_bytes tx_write [] [0x7E, 0x01, 0x7D, 0x11, 0x13] 0 =
     (0, [0x7D, 0x5E, 0x01, 0x7D, 0x5D, 0x7D, 0x31, 0x7D, 0x33], 0x20) \<and>
   xbee_send_frame tx_write [] [0x7D, 0x82] =
     (0, [0x7E, 0x00, 0x02, 0x7D, 0x5D, 0x82, 0x00])"
  using write_bytes_stuffing[of "[0x7E, 0x01, 0x7D, 0x11, 0x13]" "[0x7D, 0x82]" "[]" 0]
  by simp

subsection \<open>C5: the address fields of the remote AT command\<close>

lemma upt_6: "[0..<6] = [0, 1, 2, 3, 4, 5]"
  by (simp add: upt_rec)

lemma upt_8: "[0..<8] = [0, 1, 2, 3, 4, 5, 6, 7]"
  by (simp add: upt_rec)

lemma length_fold_update:
  "length (fold (\<lambda>i b. b[f i := g i]) xs buf) = length buf"
  by (induction xs arbitrary: buf) simp_all

lemma remote_at_address_length:
  "remote_at_address buf address = Inr buf1 \<Longrightarrow> length buf1 = length buf"
  by (auto simp: remote_at_address_def length_fold_update split: xbee_address.splits)

lemma xbee_remote_at_command_tx:
  "length param < 2 ^ 31 \<Longrightarrow> length stack = 15 \<Longrightarrow>
   xbee_remote_at_command tx_write sent stack address opts fid cmd param =
     (case remote_at_address (stack[0 := XBEE_REMOTE_AT_COMMAND, 1 := fid]) address of
        Inl e \<Rightarrow> Inl e
      | Inr buf1 \<Rightarrow>
          Inr (0, sent @ XBEE_FRAME_DELIM #
            stuffed [ucast (drop_bit 8 (of_nat (15 + length param) :: 16 word)),
                     ucast ((of_nat (15 + length param) :: 16 word) AND 0xFF)] @
            stuffed (buf1[12 := opts, 13 := byte_of_char (cmd ! 0),
                          14 := byte_of_char (cmd ! 1)]) @
            stuffed param @
            escaped (0xFF - (sum_list (buf1[12 := opts, 13 := byte_of_char (cmd ! 0),
                          14 := byte_of_char (cmd ! 1)]) + sum_list param))))"
  by (auto simp: xbee_remote_at_command_def xbee_start_frame_tx xbee_write_bytes_tx
      xbee_finish_frame_tx Let_def split: sum.splits dest!: remote_at_address_length)

text \<open>
  C5 asks that a remote AT command to a 16-bit unicast address carries the addr64 bytes
  \<open>00 00 00 00 00 00 FF FE\<close>. The branch for \<^verbatim>\<open>XBEE_16_BIT\<close> assigns only the two
  addr16 bytes; the eight addr64 bytes of \<^verbatim>\<open>buf\<close> keep what the stack held. With a
  stack of \<open>AA\<close> bytes and the network address \<open>0x1234\<close> the frame carries
  \<open>AA AA AA AA AA AA AA AA 12 34\<close>. The broadcast branch sets all ten bytes, as C5
  says: \<open>00 00 00 00 00 00 FF FF FF FE\<close>.
\<close>

theorem remote_at_16_bit_sends_stack_bytes:
  "xbee_remote_at_command tx_write []
     [0xAA, 0xAA, 0xAA, 0xAA, 0xAA, 0xAA, 0xAA, 0xAA, 0xAA, 0xAA, 0xAA, 0xAA, 0xAA, 0xAA, 0xAA]
     (XBEE_16_BIT 0x1234) 0x02 0x01 ''NJ'' [] =
   Inr (0, [0x7E, 0x00, 0x0F, 0x17, 0x01,
            0xAA, 0xAA, 0xAA, 0xAA, 0xAA, 0xAA, 0xAA, 0xAA,
            0x12, 0x34, 0x02, 0x4E, 0x4A, 0xB7]) \<and>
   xbee_remote_at_command tx_write []
     [0xAA, 0xAA, 0xAA, 0xAA, 0xAA, 0xAA, 0xAA, 0xAA, 0xAA, 0xAA, 0xAA, 0xAA, 0xAA, 0xAA, 0xAA]
     XBEE_64_BIT_BROADCAST 0x02 0x01 ''NJ'' [] =
   Inr (0, [0x7E, 0x00, 0x0F, 0x17, 0x01,
            0x00, 0x00, 0x00, 0x00, 0x00, 0x00, 0xFF, 0xFF,
            0xFF, 0xFE, 0x02, 0x4E, 0x4A, 0x52])"
  by (simp add: xbee_remote_at_command_tx remote_at_address_def emit_eval upt_6 upt_8)

section \<open>Properties of the response parser\<close>

lemmas parse_eval = xbee_parse_frame_def xbee_series1_ids_def parse_address_def
  c_shl_int_def addr_shift_def size_sub_def Let_def

subsection \<open>C3: multi-byte fields\<close>

text \<open>
  C3 asks for big-endian fields. For the \<^verbatim>\<open>RECEIVE_16_BIT\<close> payload
  \<open>81 12 34 28 00\<close> the source network address should be \<open>0x1234\<close>; the code
  assigns \<^verbatim>\<open>b[1] << 8\<close> and then overwrites it with \<^verbatim>\<open>b[2]\<close>, so the field is
  \<open>0x0034\<close>. For the \<^verbatim>\<open>RECEIVE\<close> payload \<open>80 01 02 03 04 05 06 07 08 28 00\<close> the
  source address should be \<open>0x0102030405060708\<close>; the code shifts the first byte by 72
  bits, which C does not define for an \<^verbatim>\<open>int\<close>, so the field has no defined value.
\<close>

theorem parse_addresses_not_big_endian:
  "xbee_parse_frame xbee_series1_ids [0x81, 0x12, 0x34, 0x28, 0x00] =
     Inr \<lparr>api_id = 0x81, frame_id = 0, frame = Receive (Some 0) 0x0034 0x28 0x00 0 []\<rparr> \<and>
   xbee_parse_frame xbee_series1_ids
     [0x80, 0x01, 0x02, 0x03, 0x04, 0x05, 0x06, 0x07, 0x08, 0x28, 0x00] =
     Inr \<lparr>api_id = 0x80, frame_id = 0, frame = Receive None 0 0x28 0x00 0 []\<rparr> \<and>
   map addr_shift [0, 1, 2, 3, 4, 5, 6, 7] = [72, 64, 56, 48, 40, 32, 24, 16]"
  by (simp add: parse_eval upt_8)

subsection \<open>C4: the length discipline\<close>

text \<open>
  C4, as stated, asks that the wrong-length error is returned exactly when the payload is
  shorter than the variant's minimum, and that every payload of a known API ID that meets
  the minimum parses. A \<^verbatim>\<open>MODEM_STATUS\<close> payload of three bytes meets the minimum of two
  and is refused: the code asks for exactly two bytes there (\<^verbatim>\<open>frame_size != 2\<close>), and
  for exactly three for \<^verbatim>\<open>TRANSMIT_STATUS\<close>, where a payload of four bytes is refused.
\<close>

theorem parse_modem_status_counterexample:
  "2 \<le> length [0x8A, 0x00, 0x00 :: byte] \<and>
   xbee_parse_frame xbee_series1_ids [0x8A, 0x00, 0x00] = Inl XBEE_WRONG_LENGTH_FOR_API \<and>
   3 \<le> length [0x89, 0x01, 0x00, 0x00 :: byte] \<and>
   xbee_parse_frame xbee_series1_ids [0x89, 0x01, 0x00, 0x00] =
     Inl XBEE_WRONG_LENGTH_FOR_API"
  by (simp add: parse_eval)

text \<open>
  C4, amended: \<^verbatim>\<open>xbee_parse_frame\<close> returns the wrong-length error exactly when the
  payload has fewer than 2 bytes, or is a \<^verbatim>\<open>MODEM_STATUS\<close> payload of a length other
  than 2, a \<^verbatim>\<open>TRANSMIT_STATUS\<close> payload of a length other than 3, or an
  \<^verbatim>\<open>AT_RESPONSE\<close>, \<^verbatim>\<open>REMOTE_AT_RESPONSE\<close>, \<^verbatim>\<open>RECEIVE\<close> or \<^verbatim>\<open>RECEIVE_16_BIT\<close>
  payload shorter than 5, 15, 11 or 5 bytes. It returns the unknown-API-ID error exactly
  when the payload has at least 2 bytes and its first byte is none of the six
  identifiers. In every other case it returns 0 with a parsed frame.
\<close>

theorem parse_frame_length_discipline:
  assumes "ids_distinct ids"
  shows "(xbee_parse_frame ids b = Inl XBEE_WRONG_LENGTH_FOR_API \<longleftrightarrow>
            length b < 2 \<or>
            b ! 0 = XBEE_MODEM_STATUS ids \<and> length b \<noteq> 2 \<or>
            b ! 0 = XBEE_TRANSMIT_STATUS ids \<and> length b \<noteq> 3 \<or>
            b ! 0 = XBEE_AT_RESPONSE ids \<and> length b < 5 \<or>
            b ! 0 = XBEE_REMOTE_AT_RESPONSE ids \<and> length b < 15 \<or>
            b ! 0 = XBEE_RECEIVE ids \<and> length b < 11 \<or>
            b ! 0 = XBEE_RECEIVE_16_BIT ids \<and> length b < 5) \<and>
         (xbee_parse_frame ids b = Inl XBEE_UNKNOWN_API_ID \<longleftrightarrow>
            2 \<le> length b \<and>
            b ! 0 \<notin> {XBEE_MODEM_STATUS ids, XBEE_TRANSMIT_STATUS ids, XBEE_AT_RESPONSE ids,
                       XBEE_REMOTE_AT_RESPONSE ids, XBEE_RECEIVE ids, XBEE_RECEIVE_16_BIT ids}) \<and>
         ((\<exists>p. xbee_parse_frame ids b = Inr p) \<longleftrightarrow>
            b ! 0 = XBEE_MODEM_STATUS ids \<and> length b = 2 \<or>
            b ! 0 = XBEE_TRANSMIT_STATUS ids \<and> length b = 3 \<or>
            b ! 0 = XBEE_AT_RESPONSE ids \<and> 5 \<le> length b \<or>
            b ! 0 = XBEE_REMOTE_AT_RESPONSE ids \<and> 15 \<le> length b \<or>
            b ! 0 = XBEE_RECEIVE ids \<and> 11 \<le> length b \<or>
            b ! 0 = XBEE_RECEIVE_16_BIT ids \<and> 5 \<le> length b)"
  using assms unfolding xbee_parse_frame_def ids_distinct_def Let_def
  by auto

theorem parse_frame_length_discipline_witness:
  "ids_distinct xbee_series1_ids \<and>
   (\<exists>p. xbee_parse_frame xbee_series1_ids [0x88, 0x01, 0x41, 0x50, 0x00] = Inr p) \<and>
   xbee_parse_frame xbee_series1_ids [0x88, 0x01, 0x41, 0x50] = Inl XBEE_WRONG_LENGTH_FOR_API \<and>
   xbee_parse_frame xbee_series1_ids [0x42, 0x01] = Inl XBEE_UNKNOWN_API_ID"
proof -
  have d: "ids_distinct xbee_series1_ids"
    by (simp add: ids_distinct_def xbee_series1_ids_def)
  show ?thesis
    using d parse_frame_length_discipline[OF d, of "[0x88, 0x01, 0x41, 0x50, 0x00]"]
      parse_frame_length_discipline[OF d, of "[0x88, 0x01, 0x41, 0x50]"]
      parse_frame_length_discipline[OF d, of "[0x42, 0x01]"]
    by (simp add: xbee_series1_ids_def)
qed

section \<open>Properties of the frame scanner\<close>

lemmas ring_eval =
  xbee_decode_frame_def decode_frame_loop.simps decode_frame_body_def
  decode_payload_loop.simps decode_payload_body_def drop_and_continue_def local_byte_def
  store_byte_def xbee_find_if_have_next_delim_def find_delim_loop.simps
  xbee_get_next_byte_def xbee_get_byte_def xbee_drop_byte_def xbee_check_def
  size_add_def size_sub_def Let_def

subsection \<open>C2: a start delimiter inside the payload\<close>

text \<open>
  C2 asks that after a \<open>0x7E\<close> found in the payload region the scanner drops one byte
  and restarts the scan, without un-escaping the current attempt any further. In the code
  the \<^verbatim>\<open>continue\<close> after the drop stands inside the \<^verbatim>\<open>for\<close> loop over the payload:
  it goes on with the next payload byte. On the ring \<open>7E 00 02 10 7E EF\<close> the restart
  would leave five bytes and return 0 (second statement below). The code instead reads
  \<open>EF\<close> as the checksum of the same attempt, finds the sum \<open>10 + EF = FF\<close>, and
  returns a frame of length 2 whose second byte is the stray \<open>7E\<close>.
\<close>

theorem decode_goes_on_after_found_start:
  "xbee_decode_frame
     \<lparr>recv = [0x7E, 0x00, 0x02, 0x10, 0x7E, 0xEF, 0, 0, 0, 0, 0, 0, 0, 0, 0, 0],
      recv_idx = 0, recv_size = 6, recv_max_size = 16\<rparr> 8 [0, 0, 0, 0, 0, 0, 0, 0] =
   Inr (2, \<lparr>recv = [0x7E, 0x00, 0x02, 0x10, 0x7E, 0xEF, 0, 0, 0, 0, 0, 0, 0, 0, 0, 0],
            recv_idx = 6, recv_size = 0, recv_max_size = 16\<rparr>,
        [0x10, 0x7E, 0xEF, 0, 0, 0, 0, 0]) \<and>
   xbee_decode_frame
     \<lparr>recv = [0x7E, 0x00, 0x02, 0x10, 0x7E, 0xEF, 0, 0, 0, 0, 0, 0, 0, 0, 0, 0],
      recv_idx = 1, recv_size = 5, recv_max_size = 16\<rparr> 8 [0, 0, 0, 0, 0, 0, 0, 0] =
   Inr (0, \<lparr>recv = [0x7E, 0x00, 0x02, 0x10, 0x7E, 0xEF, 0, 0, 0, 0, 0, 0, 0, 0, 0, 0],
            recv_idx = 1, recv_size = 5, recv_max_size = 16\<rparr>,
        [0, 0, 0, 0, 0, 0, 0, 0])"
  by (simp add: ring_eval)

subsection \<open>C10: the bound on the output buffer\<close>

lemma xbee_drop_byte_no_oob: "xbee_drop_byte xbee \<noteq> Inl Out_Of_Bounds"
  by (simp add: xbee_drop_byte_def Let_def)

lemma xbee_get_byte_no_oob: "xbee_get_byte xbee i \<noteq> Inl Out_Of_Bounds"
  by (simp add: xbee_get_byte_def Let_def)

lemma xbee_get_next_byte_no_oob: "xbee_get_next_byte xbee idx \<noteq> Inl Out_Of_Bounds"
  using xbee_get_byte_no_oob
  by (auto simp: xbee_get_next_byte_def split: sum.splits)

lemma find_delim_loop_no_oob: "find_delim_loop xbee i \<noteq> Inl Out_Of_Bounds"
proof (induction xbee i rule: find_delim_loop.induct)
  case (1 xbee i)
  then show ?case
    using xbee_get_byte_no_oob[of xbee i]
    by (subst find_delim_loop.simps) (auto split: sum.splits)
qed

lemma local_byte_no_oob: "local_byte w \<noteq> Inl Out_Of_Bounds"
  by (cases w) (simp_all add: local_byte_def)

lemma drop_and_continue_no_oob: "drop_and_continue xbee bytes_out \<noteq> Inl Out_Of_Bounds"
  using xbee_drop_byte_no_oob[of xbee]
  by (auto simp: drop_and_continue_def split: sum.splits)

lemma store_byte_length:
  "store_byte bytes_out i w = Inr out' \<Longrightarrow> length out' = length bytes_out"
  by (cases w) (auto simp: store_byte_def split: if_splits)

lemma store_byte_in_bounds:
  "i < length bytes_out \<Longrightarrow> store_byte bytes_out i w \<noteq> Inl e"
  by (cases w) (simp_all add: store_byte_def)

text \<open>The output buffer keeps its length through every step of the scanner.\<close>

lemma decode_payload_body_length:
  "decode_payload_body xbee i idx accum bytes_out = Inr (Payload_Next xbee' idx' accum' out')
     \<Longrightarrow> length out' = length bytes_out"
  "decode_payload_body xbee i idx accum bytes_out = Inr (Payload_Return_Zero out')
     \<Longrightarrow> length out' = length bytes_out"
  unfolding decode_payload_body_def
  by (auto split: sum.splits prod.splits if_splits dest: store_byte_length)

lemma decode_payload_loop_length:
  "decode_payload_loop xbee n i idx accum bytes_out = Inr res \<Longrightarrow>
     length (case res of Return_Zero _ out' \<Rightarrow> out' | Loop_Done _ _ _ out' \<Rightarrow> out') =
     length bytes_out"
proof (induction xbee n i idx accum bytes_out rule: decode_payload_loop.induct)
  case (1 xbee n i idx accum bytes_out)
  show ?case
  proof (cases "i < n")
    case False
    with "1.prems" show ?thesis by (auto simp: decode_payload_loop.simps[of xbee n i])
  next
    case True
    from "1.prems" True obtain st where
      b: "decode_payload_body xbee i idx accum bytes_out = Inr st"
      by (auto simp: decode_payload_loop.simps[of xbee n i] split: sum.splits)
    show ?thesis
    proof (cases st)
      case (Payload_Return_Zero out1)
      with b True "1.prems" decode_payload_body_length(2)[of xbee i idx accum bytes_out out1]
      show ?thesis by (auto simp: decode_payload_loop.simps[of xbee n i])
    next
      case (Payload_Next x1 idx1 accum1 out1)
      have l: "decode_payload_loop x1 n (i + 1) idx1 accum1 out1 = Inr res"
        using b True "1.prems" Payload_Next
        by (simp add: decode_payload_loop.simps[of xbee n i])
      from "1.IH"[OF True _ refl l] b Payload_Next
        decode_payload_body_length(1)[of xbee i idx accum bytes_out x1 idx1 accum1 out1]
      show ?thesis by simp
    qed
  qed
qed

lemma decode_payload_body_in_bounds:
  assumes "i < length bytes_out"
  shows "decode_payload_body xbee i idx accum bytes_out \<noteq> Inl Out_Of_Bounds"
  using xbee_get_next_byte_no_oob[of xbee idx] xbee_drop_byte_no_oob[of xbee]
    find_delim_loop_no_oob[of xbee 1] store_byte_in_bounds[OF assms]
  unfolding decode_payload_body_def xbee_find_if_have_next_delim_def
  by (auto split: sum.splits prod.splits)

lemma decode_payload_loop_in_bounds:
  assumes "n \<le> length bytes_out"
  shows "decode_payload_loop xbee n i idx accum bytes_out \<noteq> Inl Out_Of_Bounds"
  using assms
proof (induction xbee n i idx accum bytes_out rule: decode_payload_loop.induct)
  case (1 xbee n i idx accum bytes_out)
  show ?case
  proof (cases "i < n")
    case False
    then show ?thesis by (simp add: decode_payload_loop.simps[of xbee n i])
  next
    case True
    then have i: "i < length bytes_out" using "1.prems" by simp
    note b = decode_payload_body_in_bounds[OF i, of xbee idx accum]
    show ?thesis
    proof (cases "decode_payload_body xbee i idx accum bytes_out")
      case (Inl e)
      with b True show ?thesis by (simp add: decode_payload_loop.simps[of xbee n i])
    next
      case (Inr st)
      show ?thesis
      proof (cases st)
        case (Payload_Return_Zero out1)
        with Inr True show ?thesis
          by (simp add: decode_payload_loop.simps[of xbee n i])
      next
        case (Payload_Next x1 idx1 accum1 out1)
        have len: "length out1 = length bytes_out"
          using decode_payload_body_length(1) Inr Payload_Next by simp
        have "decode_payload_loop x1 n (i + 1) idx1 accum1 out1 \<noteq> Inl Out_Of_Bounds"
          using "1.IH"[OF True _ refl] Inr Payload_Next "1.prems" len by simp
        then show ?thesis
          using Inr Payload_Next True
          by (simp add: decode_payload_loop.simps[of xbee n i])
      qed
    qed
  qed
qed

lemma decode_frame_body_length:
  assumes "decode_frame_body xbee frame_out_size bytes_out = Inr st"
  shows "length (case st of Scan_Return _ _ out' \<Rightarrow> out' | Scan_Continue _ out' \<Rightarrow> out') =
         length bytes_out"
proof -
  have d: "o2 = o1" if "drop_and_continue x1 o1 = Inr (Scan_Continue y o2)" for x1 o1 y o2
    using that by (auto simp: drop_and_continue_def split: sum.splits)
  have r: "False" if "drop_and_continue x1 o1 = Inr (Scan_Return q y o2)" for x1 o1 y o2 q
    using that by (auto simp: drop_and_continue_def split: sum.splits)
  have l1: "length o1 = length bytes_out"
    if "decode_payload_loop xbee n i idx a bytes_out = Inr (Return_Zero x1 o1)"
    for n i idx a x1 o1
    using decode_payload_loop_length[OF that] by simp
  have l2: "length o1 = length bytes_out"
    if "decode_payload_loop xbee n i idx a bytes_out = Inr (Loop_Done x1 idx1 a1 o1)"
    for n i idx a x1 o1 idx1 a1
    using decode_payload_loop_length[OF that] by simp
  show ?thesis
    using assms unfolding decode_frame_body_def Let_def
    by (cases st)
       (auto split: sum.splits prod.splits if_splits payload_result.splits
          dest!: d l1 l2 dest: r)
qed


lemma decode_frame_body_in_bounds:
  assumes "frame_out_size \<le> length bytes_out"
  shows "decode_frame_body xbee frame_out_size bytes_out \<noteq> Inl Out_Of_Bounds"
proof -
  have l: "decode_payload_loop xbee n 0 idx 0 bytes_out \<noteq> Inl Out_Of_Bounds"
    if "n \<le> frame_out_size" for n idx
    using decode_payload_loop_in_bounds[of n bytes_out xbee 0 idx 0] that assms by simp
  show ?thesis
    unfolding decode_frame_body_def Let_def
    using xbee_get_byte_no_oob[of xbee 0] xbee_get_next_byte_no_oob[of xbee]
      local_byte_no_oob drop_and_continue_no_oob
    by (auto split: sum.splits prod.splits payload_result.splits simp: l not_less)
qed

lemma decode_frame_loop_in_bounds:
  assumes "frame_out_size \<le> length bytes_out"
  shows "decode_frame_loop xbee frame_out_size bytes_out \<noteq> Inl Out_Of_Bounds \<and>
         (\<forall>r xbee' out'. decode_frame_loop xbee frame_out_size bytes_out = Inr (r, xbee', out')
            \<longrightarrow> length out' = length bytes_out)"
  using assms
proof (induction xbee frame_out_size bytes_out rule: decode_frame_loop.induct)
  case (1 xbee frame_out_size bytes_out)
  show ?case
  proof (cases "recv_size xbee \<ge> 6")
    case False
    then show ?thesis by (simp add: decode_frame_loop.simps[of xbee])
  next
    case True
    note b = decode_frame_body_in_bounds[OF "1.prems", of xbee]
    show ?thesis
    proof (cases "decode_frame_body xbee frame_out_size bytes_out")
      case (Inl e)
      with b True show ?thesis by (simp add: decode_frame_loop.simps[of xbee])
    next
      case (Inr st)
      note len = decode_frame_body_length[OF Inr]
      show ?thesis
      proof (cases st)
        case (Scan_Return r x1 out1)
        with Inr True len show ?thesis
          by (simp add: decode_frame_loop.simps[of xbee])
      next
        case (Scan_Continue x1 out1)
        have len1: "length out1 = length bytes_out"
          using len Scan_Continue by simp
        have ih: "decode_frame_loop x1 frame_out_size out1 \<noteq> Inl Out_Of_Bounds \<and>
           (\<forall>r xbee' out'. decode_frame_loop x1 frame_out_size out1 = Inr (r, xbee', out')
              \<longrightarrow> length out' = length out1)"
          using "1.IH"[OF True _ refl] Inr Scan_Continue "1.prems" len1 by simp
        show ?thesis
          using ih len1 Inr Scan_Continue True
          by (simp add: decode_frame_loop.simps[of xbee])
      qed
    qed
  qed
qed

text \<open>
  C10: \<^verbatim>\<open>xbee_decode_frame\<close> never stores at or beyond offset
  \<^verbatim>\<open>frame_out_size\<close> of the output buffer, whatever the ring holds. In the model a
  store outside the list \<open>frame_out\<close> is the error \<open>Out_Of_Bounds\<close>; with a buffer
  of exactly \<^verbatim>\<open>frame_out_size\<close> bytes the call never ends in that error, and the
  buffer it returns has the same size. Every store is made by the payload loop at its
  index \<open>i < length + 1\<close>, and the loop is entered only after the check
  \<open>length + 1 \<le> frame_out_size\<close> (lemmas \<open>decode_payload_loop_in_bounds\<close> and
  \<open>decode_frame_body_in_bounds\<close>).
\<close>

theorem decode_frame_writes_in_bounds:
  assumes "length frame_out = frame_out_size"
  shows "xbee_decode_frame xbee frame_out_size frame_out \<noteq> Inl Out_Of_Bounds \<and>
         (\<forall>r xbee' out'. xbee_decode_frame xbee frame_out_size frame_out = Inr (r, xbee', out')
            \<longrightarrow> length out' = frame_out_size)"
  using decode_frame_loop_in_bounds[of frame_out_size frame_out xbee] assms
  by (simp add: xbee_decode_frame_def)

text \<open>
  An instance with a three-byte buffer: a frame of length 2 is copied out with its
  checksum, and a frame of length 3, which would need four bytes, is passed over.
\<close>

theorem decode_frame_writes_in_bounds_witness:
  "length [0, 0, 0 :: byte] = 3 \<and>
   xbee_decode_frame
     \<lparr>recv = [0x7E, 0x00, 0x02, 0x08, 0x01, 0xF6, 0, 0, 0, 0, 0, 0, 0, 0, 0, 0],
      recv_idx = 0, recv_size = 6, recv_max_size = 16\<rparr> 3 [0, 0, 0] =
   Inr (2, \<lparr>recv = [0x7E, 0x00, 0x02, 0x08, 0x01, 0xF6, 0, 0, 0, 0, 0, 0, 0, 0, 0, 0],
            recv_idx = 6, recv_size = 0, recv_max_size = 16\<rparr>, [0x08, 0x01, 0xF6]) \<and>
   xbee_decode_frame
     \<lparr>recv = [0x7E, 0x00, 0x03, 0x08, 0x01, 0x02, 0xF4, 0, 0, 0, 0, 0, 0, 0, 0, 0],
      recv_idx = 0, recv_size = 7, recv_max_size = 16\<rparr> 3 [0, 0, 0] \<noteq> Inl Out_Of_Bounds"
  using decode_frame_writes_in_bounds[of "[0, 0, 0]" 3
     "\<lparr>recv = [0x7E, 0x00, 0x03, 0x08, 0x01, 0x02, 0xF4, 0, 0, 0, 0, 0, 0, 0, 0, 0],
      recv_idx = 0, recv_size = 7, recv_max_size = 16\<rparr>"]
  by (simp add: ring_eval)


section \<open>Properties of the receive path\<close>

subsection \<open>The scanner's return value and the reads of the buffer fill\<close>









lemma size_add_small: "a + b < 2 ^ 64 \<Longrightarrow> size_add a b = a + b"
  by (simp add: size_add_def)

lemma size_of_int_pos: "0 \<le> r \<Longrightarrow> r < 2 ^ 64 \<Longrightarrow> size_of_int r = nat r"
  by (simp add: size_of_int_def)
















subsection \<open>C9: the ring invariant\<close>

lemma xbee_drop_byte_check:
  "xbee_drop_byte xbee = Inr xbee' \<Longrightarrow> xbee_check xbee'"
  by (auto simp: xbee_drop_byte_def xbee_check_def Let_def split: if_splits)

text \<open>
  Dropping a byte keeps the invariant (above), and so does \<^verbatim>\<open>xbee_fill_buffer\<close> for a
  transport that returns no more than the count it was asked for:
\<close>

lemma read_into_ret:
  assumes "uart_read_into rd u mem start n = Inr (ret, mem', u')"
  shows "ret = fst (rd u n)"
  using assms unfolding uart_read_into_def
  by (auto split: prod.splits if_splits)

lemma fill_wrapped_region_check:
  assumes f: "fill_wrapped_region rd xbee u read = Inr (r, xbee', u')"
    and honest: "\<forall>v n. fst (rd v n) \<le> int n"
    and inv: "recv_idx xbee < recv_max_size xbee"
      "recv_size xbee + recv_idx xbee \<le> recv_max_size xbee"
      "recv_max_size xbee < 2 ^ 63"
  shows "xbee_check xbee'"
proof -
  from f obtain ret mem where
    rd: "uart_read_into rd u (recv xbee) 0 (recv_idx xbee) = Inr (ret, mem, u')"
    and res: "xbee' = (if ret > 0
                then xbee\<lparr>recv := mem, recv_size := size_add (recv_size xbee) (size_of_int ret)\<rparr>
                else xbee\<lparr>recv := mem\<rparr>)"
    unfolding fill_wrapped_region_def Let_def
    by (auto split: if_splits sum.splits prod.splits)
  have le: "ret \<le> int (recv_idx xbee)"
    using honest read_into_ret[OF rd] by simp
  show ?thesis
  proof (cases "ret > 0")
    case False
    then show ?thesis using res inv by (simp add: xbee_check_def)
  next
    case True
    have s: "size_of_int ret = nat ret"
      using True le inv by (intro size_of_int_pos) auto
    have "recv_size xbee + nat ret \<le> recv_max_size xbee" using le inv True by linarith
    then show ?thesis
      using res True s inv by (simp add: xbee_check_def size_add_small)
  qed
qed

lemma xbee_fill_buffer_check:
  assumes f: "xbee_fill_buffer rd xbee u = Inr (r, xbee', u')"
    and honest: "\<forall>v n. fst (rd v n) \<le> int n"
    and cap: "recv_max_size xbee < 2 ^ 63"
  shows "xbee_check xbee'"
proof -
  define sum where "sum = size_add (recv_idx xbee) (recv_size xbee)"
  define read_start where
    "read_start = (if sum < recv_max_size xbee then sum else sum - recv_max_size xbee)"
  define read_end where
    "read_end = (if sum < recv_max_size xbee then recv_max_size xbee else recv_idx xbee)"
  define read_len where "read_len = read_end - read_start"
  from f have chk: "xbee_check xbee"
    by (auto simp: xbee_fill_buffer_def split: if_splits)
  have sum_eq: "sum = recv_idx xbee + recv_size xbee"
    using chk cap unfolding sum_def xbee_check_def by (simp add: size_add_small)
  from f obtain ret mem u1 where
    rd: "uart_read_into rd u (recv xbee) read_start read_len = Inr (ret, mem, u1)"
    and rest: "(let xbee1 = xbee\<lparr>recv := mem,
                      recv_size := (if ret > 0
                                    then size_add (recv_size xbee) (size_of_int ret)
                                    else recv_size xbee)\<rparr>
                in if size_of_int ret = read_len \<and> read_end \<noteq> recv_idx xbee1 \<and>
                      recv_size xbee1 < recv_max_size xbee1
                   then fill_wrapped_region rd xbee1 u1 (size_of_int ret)
                   else Inr (ret, xbee1, u1)) = Inr (r, xbee', u')"
    and a1: "read_start < read_end" "read_end \<le> recv_max_size xbee"
    unfolding xbee_fill_buffer_def Let_def sum_def[symmetric] read_start_def[symmetric]
      read_end_def[symmetric] read_len_def[symmetric]
    by (auto split: if_splits sum.splits prod.splits)
  have le: "ret \<le> int read_len"
    using honest read_into_ret[OF rd] by simp
  have room: "recv_size xbee + read_len \<le> recv_max_size xbee"
    "sum < recv_max_size xbee \<Longrightarrow>
       recv_size xbee + read_len + recv_idx xbee = recv_max_size xbee"
    using chk sum_eq a1 unfolding read_len_def read_start_def read_end_def xbee_check_def
    by (auto split: if_splits)
  define xbee1 where "xbee1 = xbee\<lparr>recv := mem,
                      recv_size := (if ret > 0
                                    then size_add (recv_size xbee) (size_of_int ret)
                                    else recv_size xbee)\<rparr>"
  have size1: "recv_size xbee1 = recv_size xbee + nat ret"
  proof (cases "ret > 0")
    case True
    have s: "size_of_int ret = nat ret"
      using True le a1 cap by (intro size_of_int_pos) (auto simp: read_len_def)
    have "recv_size xbee + nat ret \<le> recv_max_size xbee" using le room(1) True by linarith
    then have "recv_size xbee + nat ret < 2 ^ 64" using cap by simp
    then show ?thesis using True s by (simp add: xbee1_def size_add_small)
  next
    case False
    then show ?thesis by (simp add: xbee1_def)
  qed
  have c1: "xbee_check xbee1"
    using chk size1 le room(1) by (simp add: xbee_check_def xbee1_def)
  show ?thesis
  proof (cases "size_of_int ret = read_len \<and> read_end \<noteq> recv_idx xbee1 \<and>
                recv_size xbee1 < recv_max_size xbee1")
    case False
    with rest have "xbee' = xbee1"
      unfolding Let_def xbee1_def[symmetric] by auto
    then show ?thesis using c1 by simp
  next
    case True
    with rest have w: "fill_wrapped_region rd xbee1 u1 (size_of_int ret) = Inr (r, xbee', u')"
      unfolding Let_def xbee1_def[symmetric] by simp
    have re: "sum < recv_max_size xbee"
      using True unfolding read_end_def xbee1_def by (auto split: if_splits)
    have "recv_size xbee1 + recv_idx xbee1 \<le> recv_max_size xbee1"
      using size1 le room(2)[OF re] by (simp add: xbee1_def)
    then show ?thesis
      using fill_wrapped_region_check[OF w honest] c1 cap
      by (simp add: xbee_check_def xbee1_def)
  qed
qed

text \<open>
  C9 asks that \<^verbatim>\<open>xbee_decode_frame\<close> too preserves \<open>recv_idx < recv_max_size\<close> and
  \<open>recv_size \<le> recv_max_size\<close>, the invariant that \<^verbatim>\<open>xbee_check\<close> asserts. On the
  ring \<open>7E 00 03 FF 7E 7E\<close> the payload loop drops three bytes and still finishes with
  the sum \<open>FF\<close> and \<open>idx = 4\<close>; \<^verbatim>\<open>recv_size -= idx\<close> then takes 4 from the
  remaining 3 and wraps around.
\<close>

theorem decode_breaks_ring_invariant:
  "xbee_check \<lparr>recv = [0x7E, 0x00, 0x03, 0xFF, 0x7E, 0x7E, 0, 0, 0, 0, 0, 0, 0, 0, 0, 0],
      recv_idx = 0, recv_size = 6, recv_max_size = 16\<rparr> \<and>
   xbee_decode_frame
     \<lparr>recv = [0x7E, 0x00, 0x03, 0xFF, 0x7E, 0x7E, 0, 0, 0, 0, 0, 0, 0, 0, 0, 0],
      recv_idx = 0, recv_size = 6, recv_max_size = 16\<rparr> 8 [0, 0, 0, 0, 0, 0, 0, 0] =
   Inr (3, \<lparr>recv = [0x7E, 0x00, 0x03, 0xFF, 0x7E, 0x7E, 0, 0, 0, 0, 0, 0, 0, 0, 0, 0],
            recv_idx = 7, recv_size = 18446744073709551615, recv_max_size = 16\<rparr>,
        [0xFF, 0x7E, 0x7E, 0, 0, 0, 0, 0]) \<and>
   \<not> xbee_check
     \<lparr>recv = [0x7E, 0x00, 0x03, 0xFF, 0x7E, 0x7E, 0, 0, 0, 0, 0, 0, 0, 0, 0, 0],
      recv_idx = 7, recv_size = 18446744073709551615, recv_max_size = 16\<rparr>"
  by (simp add: ring_eval)

subsection \<open>C1: the round trip through emitter and scanner\<close>

lemmas load_eval = xbee_fill_buffer_def fill_wrapped_region_def uart_read_into_def
  stream_read_def xbee_open_state_def size_of_int_def int_of_size_def

lemma length_bytes_roundtrip:
  fixes L :: "16 word"
  shows "push_bit 8 (ucast (ucast (drop_bit 8 L) :: byte) :: 16 word) OR
         ucast (ucast (L AND 0xFF) :: byte) = L"
proof (rule bit_word_eqI)
  have m: "(0xFF :: 16 word) = mask 8" by (simp add: mask_eq_exp_minus_1)
  fix n assume "n < LENGTH(16)"
  then show "bit (push_bit 8 (ucast (ucast (drop_bit 8 L) :: byte) :: 16 word) OR
         ucast (ucast (L AND 0xFF) :: byte)) n = bit L n"
    by (auto simp: bit_simps m simp del: mask_numeral)
qed

lemma unat_of_nat_16: "n \<le> 65535 \<Longrightarrow> unat (of_nat n :: 16 word) = n"
  by (simp add: unat_of_nat)


text \<open>The ring holds exactly the bytes \<open>w\<close>, oldest first.\<close>

definition ring_holds :: "xbee_interface \<Rightarrow> byte list \<Rightarrow> bool" where
  "ring_holds xbee w \<longleftrightarrow>
     xbee_check xbee \<and> recv_size xbee = length w \<and>
     (\<forall>i < length w. xbee_get_byte xbee i = Inr (w ! i))"

lemma get_next_byte_escaped:
  assumes h: "ring_holds xbee w" and w: "w = pre @ escaped b @ post"
  shows "xbee_get_next_byte xbee (length pre) =
           Inr (0, length pre + length (escaped b), Some b)"
proof (cases "needs_escape b")
  case True
  then have e: "escaped b = [0x7D, b XOR 0x20]" by (simp add: escaped_def)
  have n0: "length pre < length w" and n1: "length pre + 1 < length w"
    using w e by simp_all
  have b0: "w ! length pre = 0x7D" using w e by (simp add: nth_append)
  have b1: "w ! (length pre + 1) = b XOR 0x20" using w e by (simp add: nth_append)
  have g0: "xbee_get_byte xbee (length pre) = Inr 0x7D"
    using h n0 b0 by (simp add: ring_holds_def)
  have g1: "xbee_get_byte xbee (length pre + 1) = Inr (b XOR 0x20)"
    using h n1 b1 by (simp add: ring_holds_def)
  have x: "b XOR 0x20 \<noteq> 0x7E" "(b XOR 0x20) XOR 0x20 = b"
    using True by (auto simp: needs_escape_def)
  show ?thesis
    using h n0 n1 g0 g1 x e
    by (simp add: xbee_get_next_byte_def ring_holds_def)
next
  case False
  then have e: "escaped b = [b]" by (simp add: escaped_def)
  have n0: "length pre < length w" using w e by simp
  have b0: "w ! length pre = b" using w e by (simp add: nth_append)
  have g0: "xbee_get_byte xbee (length pre) = Inr b"
    using h n0 b0 by (simp add: ring_holds_def)
  have x: "b \<noteq> 0x7E" "b \<noteq> 0x7D" using False by (auto simp: needs_escape_def)
  show ?thesis
    using h n0 g0 x e
    by (simp add: xbee_get_next_byte_def ring_holds_def)
qed

lemma decode_payload_loop_stuffed:
  assumes h: "ring_holds xbee w"
    and w: "w = pre @ stuffed bs @ post"
    and n: "i + length bs = n"
    and o: "n \<le> length bytes_out"
  shows "decode_payload_loop xbee n i (length pre) accum bytes_out =
           Inr (Loop_Done xbee (length pre + length (stuffed bs)) (accum + sum_list bs)
                  (take i bytes_out @ bs @ drop n bytes_out))"
  using w n o
proof (induction bs arbitrary: i pre accum bytes_out)
  case Nil
  then show ?case by (subst decode_payload_loop.simps) simp
next
  case (Cons b bs)
  have i: "i < n" "i < length bytes_out" using Cons.prems by simp_all
  have w': "w = pre @ escaped b @ (stuffed bs @ post)"
    using Cons.prems(1) by simp
  note g = get_next_byte_escaped[OF h w']
  have body: "decode_payload_body xbee i (length pre) accum bytes_out =
      Inr (Payload_Next xbee (length pre + length (escaped b)) (accum + b) (bytes_out[i := b]))"
    using g i by (simp add: decode_payload_body_def store_byte_def)
  have ih: "decode_payload_loop xbee n (Suc i) (length (pre @ escaped b)) (accum + b)
              (bytes_out[i := b]) =
           Inr (Loop_Done xbee (length (pre @ escaped b) + length (stuffed bs))
                  ((accum + b) + sum_list bs)
                  (take (Suc i) (bytes_out[i := b]) @ bs @ drop n (bytes_out[i := b])))"
    using Cons.prems by (intro Cons.IH) simp_all
  have t: "take (Suc i) (bytes_out[i := b]) = take i bytes_out @ [b]"
    using i by (simp add: take_Suc_conv_app_nth)
  have d: "drop n (bytes_out[i := b]) = drop n bytes_out"
    using i by simp
  show ?case
    using i body ih t d
    by (subst decode_payload_loop.simps) (simp add: add.assoc)
qed


text \<open>
  The byte sequence \<^verbatim>\<open>xbee_send_frame\<close> hands to an accepting transport for the
  payload \<open>P\<close>.
\<close>

definition emitted :: "byte list \<Rightarrow> byte list" where
  "emitted P = snd (xbee_send_frame tx_write [] P)"

lemma length_stuffed_bounds:
  "length bs \<le> length (stuffed bs)" "length (stuffed bs) \<le> 2 * length bs"
  by (induction bs) (simp_all add: escaped_def)

lemma emitted_eq:
  "length P < 2 ^ 31 \<Longrightarrow>
   emitted P = XBEE_FRAME_DELIM #
     stuffed [ucast (drop_bit 8 (of_nat (length P) :: 16 word)),
              ucast ((of_nat (length P) :: 16 word) AND 0xFF)] @
     stuffed (P @ [0xFF - sum_list P])"
  by (simp add: emitted_def xbee_send_frame_tx stuffed_append)

lemma emitted_length:
  assumes "length P < 2 ^ 31"
  shows "length P + 4 \<le> length (emitted P)" "length (emitted P) \<le> 2 * length P + 7"
proof -
  have e: "length (emitted P) =
      1 + length (stuffed [ucast (drop_bit 8 (of_nat (length P) :: 16 word)),
              ucast ((of_nat (length P) :: 16 word) AND 0xFF)]) +
      length (stuffed (P @ [0xFF - sum_list P]))"
    by (simp only: emitted_eq[OF assms] length_Cons length_append)
  show "length P + 4 \<le> length (emitted P)"
    using length_stuffed_bounds(1)[of "P @ [0xFF - sum_list P]"]
      length_stuffed_bounds(1)[of "[ucast (drop_bit 8 (of_nat (length P) :: 16 word)),
              ucast ((of_nat (length P) :: 16 word) AND 0xFF)]"]
    unfolding e by simp
  show "length (emitted P) \<le> 2 * length P + 7"
    using length_stuffed_bounds(2)[of "P @ [0xFF - sum_list P]"]
      length_stuffed_bounds(2)[of "[ucast (drop_bit 8 (of_nat (length P) :: 16 word)),
              ucast ((of_nat (length P) :: 16 word) AND 0xFF)]"]
    unfolding e by simp
qed

lemma decode_frame_body_emitted:
  assumes h: "ring_holds xbee (emitted P @ rest)"
    and len: "length P \<le> 65535"
    and lr: "length rest < 2 ^ 64"
    and fos: "length P + 1 \<le> frame_out_size" "frame_out_size \<le> length bytes_out"
  shows "decode_frame_body xbee frame_out_size bytes_out =
           Inr (Scan_Return (int (length P))
                  (xbee\<lparr>recv_idx :=
                          (if size_add (recv_idx xbee) (length (emitted P)) \<ge> recv_max_size xbee
                           then size_add (recv_idx xbee) (length (emitted P)) - recv_max_size xbee
                           else size_add (recv_idx xbee) (length (emitted P))),
                        recv_size := length rest\<rparr>)
                  (P @ [0xFF - sum_list P] @ drop (length P + 1) bytes_out))"
proof -
  define L :: "16 word" where "L = of_nat (length P)"
  define hi :: byte where "hi = ucast (drop_bit 8 L)"
  define lo :: byte where "lo = ucast (L AND 0xFF)"
  define cs :: byte where "cs = 0xFF - sum_list P"
  have l31: "length P < 2 ^ 31" using len by simp
  have e: "emitted P = [0x7E] @ escaped hi @ escaped lo @ stuffed (P @ [cs])"
    by (simp add: emitted_eq[OF l31] L_def hi_def lo_def cs_def)
  have w: "emitted P @ rest = [0x7E] @ escaped hi @ escaped lo @ stuffed (P @ [cs]) @ rest"
    by (simp add: e)
  have unatL: "unat L = length P" using len by (simp add: L_def unat_of_nat_16)
  have Leq: "push_bit 8 (ucast hi :: 16 word) OR ucast lo = L"
    unfolding hi_def lo_def by (rule length_bytes_roundtrip)
  have chk: "xbee_check xbee"
    and sz: "recv_size xbee = length (emitted P) + length rest"
    using h by (simp_all add: ring_holds_def)
  have g0: "xbee_get_byte xbee 0 = Inr 0x7E"
    using h w by (simp add: ring_holds_def)
  have g1: "xbee_get_next_byte xbee 1 = Inr (0, 1 + length (escaped hi), Some hi)"
    using get_next_byte_escaped[OF h, of "[0x7E]" hi
        "escaped lo @ stuffed (P @ [cs]) @ rest"] w
    by simp
  have g2: "xbee_get_next_byte xbee (1 + length (escaped hi)) =
      Inr (0, 1 + length (escaped hi) + length (escaped lo), Some lo)"
    using get_next_byte_escaped[OF h, of "[0x7E] @ escaped hi" lo
        "stuffed (P @ [cs]) @ rest"] w
    by simp
  have cap: "length P + 4 \<le> recv_max_size xbee"
    using emitted_length(1)[OF l31] chk sz by (simp add: xbee_check_def)
  have pl: "decode_payload_loop xbee (length P + 1) 0
              (length ([0x7E] @ escaped hi @ escaped lo)) 0 bytes_out =
           Inr (Loop_Done xbee
                  (length ([0x7E] @ escaped hi @ escaped lo) + length (stuffed (P @ [cs])))
                  (0 + sum_list (P @ [cs]))
                  (take 0 bytes_out @ (P @ [cs]) @ drop (length P + 1) bytes_out))"
    using w fos by (intro decode_payload_loop_stuffed[OF h, where post = rest]) simp_all
  have acc: "0 + sum_list (P @ [cs]) = (0xFF :: byte)"
    by (simp add: cs_def)
  have idx: "length ([0x7E] @ escaped hi @ escaped lo) + length (stuffed (P @ [cs])) =
      length (emitted P)"
    by (simp add: e)
  have pl': "decode_payload_loop xbee (Suc (length P)) 0
              (Suc (length (escaped hi) + length (escaped lo))) 0 bytes_out =
           Inr (Loop_Done xbee (length (emitted P)) 0xFF
                  (P @ [cs] @ drop (length P + 1) bytes_out))"
    using pl unfolding acc idx by simp
  have ss: "size_sub (length (emitted P) + length rest) (length (emitted P)) = length rest"
    using lr by (simp add: size_sub_def)
  show ?thesis
    unfolding decode_frame_body_def
    using g0 g1 g2 unatL Leq cap fos pl' sz ss
    by (simp add: local_byte_def Let_def cs_def)
qed


lemma xbee_decode_frame_emitted:
  assumes h: "ring_holds xbee (emitted P @ rest)"
    and len: "length P \<le> 65535"
    and lr: "length rest < 2 ^ 64"
    and six: "6 \<le> length (emitted P @ rest)"
    and fos: "length P + 1 \<le> frame_out_size" "frame_out_size \<le> length frame_out"
  shows "xbee_decode_frame xbee frame_out_size frame_out =
           Inr (int (length P),
                xbee\<lparr>recv_idx :=
                        (if size_add (recv_idx xbee) (length (emitted P)) \<ge> recv_max_size xbee
                         then size_add (recv_idx xbee) (length (emitted P)) - recv_max_size xbee
                         else size_add (recv_idx xbee) (length (emitted P))),
                      recv_size := length rest\<rparr>,
                P @ [0xFF - sum_list P] @ drop (length P + 1) frame_out)"
proof -
  have chk: "xbee_check xbee"
    and sz: "recv_size xbee = length (emitted P) + length rest"
    using h by (simp_all add: ring_holds_def)
  show ?thesis
    unfolding xbee_decode_frame_def
    using chk sz six decode_frame_body_emitted[OF h len lr fos]
    by (subst decode_frame_loop.simps) (simp add: xbee_check_def)
qed

lemma fill_empty_ring_from_stream:
  assumes chk: "xbee_check xbee" and empty: "recv_size xbee = 0"
    and mem: "length (recv xbee) = recv_max_size xbee"
    and cap: "recv_max_size xbee < 2 ^ 63"
    and w: "0 < length w" "length w \<le> recv_max_size xbee" "length w < 2 ^ 31"
  shows "\<exists>xbee'. xbee_fill_buffer stream_read xbee w = Inr (int (length w), xbee', []) \<and>
           ring_holds xbee' w"
proof -
  define h where "h = recv_idx xbee"
  define c where "c = recv_max_size xbee"
  define m where "m = recv xbee"
  have hc: "h < c" using chk by (simp add: xbee_check_def h_def c_def)
  have lm: "length m = c" using mem by (simp add: m_def c_def)
  have c63: "c < 2 ^ 63" using cap by (simp add: c_def)
  define d1 where "d1 = take (c - h) w"
  define m1 where "m1 = take h m @ d1 @ drop (h + length d1) m"
  have ld1: "length d1 = min (c - h) (length w)" by (simp add: d1_def)
  have lm1: "length m1 = c" using lm hc ld1 by (auto simp: m1_def min_def)
  have sum: "size_add h 0 = h" using hc c63 by (simp add: size_add_def)
  have sa: "size_add h (c - h) = c" using hc c63 by (simp add: size_add_def)
  have r1: "uart_read_into stream_read w m h (c - h) =
      Inr (int (length d1), m1, drop (c - h) w)"
    by (simp add: uart_read_into_def stream_read_def d1_def m1_def min_def)
  have d1pos: "0 < length d1" using w hc ld1 by simp
  have soi: "size_of_int (int (length d1)) = length d1"
    using w ld1 by (simp add: size_of_int_def)
  have sz1: "size_add 0 (length d1) = length d1"
    using w ld1 by (simp add: size_add_def)
  define x1 where "x1 = xbee\<lparr>recv := m1, recv_size := length d1\<rparr>"
  have soi2: "size_of_int (int c - int h) = c - h"
    using hc c63 by (simp add: size_of_int_def nat_diff_distrib')
  have sz2: "size_add 0 (c - h) = c - h"
    using hc c63 by (simp add: size_add_def)
  have main: "xbee_fill_buffer stream_read xbee w =
      (if length d1 = c - h \<and> c \<noteq> h \<and> length d1 < c
       then fill_wrapped_region stream_read x1 (drop (c - h) w) (length d1)
       else Inr (int (length d1), x1, drop (c - h) w))"
    using chk hc r1 d1pos soi sz1 sum sa empty soi2 sz2
    unfolding xbee_fill_buffer_def Let_def h_def[symmetric] c_def[symmetric] m_def[symmetric]
      x1_def
    by (auto simp: h_def[symmetric] c_def[symmetric])
  show ?thesis
  proof (cases "length d1 = c - h \<and> c \<noteq> h \<and> length d1 < c")
    case False
    have one: "xbee_fill_buffer stream_read xbee w = Inr (int (length d1), x1, drop (c - h) w)"
      by (simp only: main False if_False)
    from False have lw: "length w \<le> c - h"
      using ld1 w hc by (auto simp: min_def c_def split: if_splits)
    then have d1w: "d1 = w" by (simp add: d1_def)
    have rest: "drop (c - h) w = []" using lw by simp
    have "ring_holds x1 w"
      unfolding ring_holds_def
    proof (intro conjI allI impI)
      show "xbee_check x1" using chk w lw hc by (simp add: x1_def xbee_check_def d1w c_def h_def)
      show "recv_size x1 = length w" by (simp add: x1_def d1w)
      fix i assume i: "i < length w"
      have ih: "i + h < c" using i lw by simp
      have sa: "size_add i h = i + h" using ih c63 by (simp add: size_add_def)
      have "m1 ! (i + h) = w ! i"
        using i lm hc by (simp add: m1_def d1w nth_append)
      then show "xbee_get_byte x1 i = Inr (w ! i)"
        using \<open>xbee_check x1\<close> i ih sa
        by (simp add: xbee_get_byte_def x1_def d1w Let_def c_def[symmetric] h_def[symmetric])
    qed
    with one rest d1w show ?thesis by auto
  next
    case True
    have two: "xbee_fill_buffer stream_read xbee w =
        fill_wrapped_region stream_read x1 (drop (c - h) w) (length d1)"
      unfolding main using True by (rule if_P)
    from True have l1: "length d1 = c - h" and hpos: "0 < h" by auto
    have wl: "c - h \<le> length w" using l1 ld1 by (simp add: min_def split: if_splits)
    define d2 where "d2 = drop (c - h) w"
    have ld2: "length d2 = length w - (c - h)" by (simp add: d2_def)
    have ld2h: "length d2 \<le> h" using ld2 w by (simp add: c_def)
    define m2 where "m2 = d2 @ drop (length d2) m1"
    have r2: "uart_read_into stream_read d2 m1 0 h = Inr (int (length d2), m2, [])"
      using ld2h by (simp add: uart_read_into_def stream_read_def m2_def min_def)
    have total: "length d1 + length d2 = length w" using l1 ld2 wl by simp
    have sah: "size_add 0 h = h" using hc c63 by (simp add: size_add_def)
    have soi2: "size_of_int (int (length d2)) = length d2"
      using w ld2 by (simp add: size_of_int_def)
    have sa3: "size_add (length d1) (length d2) = length w"
      using total w by (simp add: size_add_def)
    have ios: "int_of_size (length w) = int (length w)" "int_of_size (length d1) = int (length d1)"
      using w total by (simp_all add: int_of_size_def)
    define x2 where "x2 = xbee\<lparr>recv := m2, recv_size := length w\<rparr>"
    have d2e: "length d2 = 0 \<Longrightarrow> length d1 = length w" using total by simp
    have fw: "fill_wrapped_region stream_read x1 d2 (length d1) = Inr (int (length w), x2, [])"
      using hpos hc r2 sah soi2 sa3 ios d2e
      unfolding fill_wrapped_region_def Let_def
      by (auto simp: x1_def x2_def h_def[symmetric] c_def[symmetric])
    have lm2: "length m2 = c" using lm1 ld2h hc by (simp add: m2_def)
    have "ring_holds x2 w"
      unfolding ring_holds_def
    proof (intro conjI allI impI)
      show c2: "xbee_check x2" using chk w by (simp add: x2_def xbee_check_def)
      show "recv_size x2 = length w" by (simp add: x2_def)
      fix i assume i: "i < length w"
      have sa: "size_add i h = i + h" using i w hc c63 by (simp add: size_add_def c_def)
      show "xbee_get_byte x2 i = Inr (w ! i)"
      proof (cases "i + h < c")
        case True
        then have id1: "i < length d1" using l1 by simp
        have "m2 ! (i + h) = m1 ! (i + h)"
          using ld2h lm1 True by (simp add: m2_def nth_append)
        also have "\<dots> = d1 ! i"
          using id1 lm hc by (simp add: m1_def nth_append)
        also have "\<dots> = w ! i" using id1 by (simp add: d1_def)
        finally show ?thesis
          using c2 i True sa
          by (simp add: xbee_get_byte_def x2_def Let_def c_def[symmetric] h_def[symmetric])
      next
        case False
        then have j: "i + h - c < length d2" using i ld2 wl hc by simp
        have "m2 ! (i + h - c) = d2 ! (i + h - c)"
          using j by (simp add: m2_def nth_append)
        also have "\<dots> = w ! i"
          using j False hc wl by (simp add: d2_def)
        finally show ?thesis
          using c2 i False sa ld2h j hc
          by (simp add: xbee_get_byte_def x2_def Let_def c_def[symmetric] h_def[symmetric])
      qed
    qed
    with two fw show ?thesis by (auto simp: d2_def)
  qed
qed

lemma stuffed_replicate_0: "stuffed (replicate n 0) = replicate n 0"
  by (rule stuffed_plain) (simp add: needs_escape_def)

lemma emitted_65536:
  "emitted (0xFF # replicate 65535 0) = [0x7E, 0x00, 0x00, 0xFF] @ replicate 65536 0"
proof -
  have l: "(of_nat (length (0xFF # replicate 65535 (0 :: byte))) :: 16 word) = 0"
    by simp
  have r: "replicate 65535 (0 :: byte) @ [0] = replicate 65536 0"
    by (simp only: replicate_append_same)
       (metis Suc_numeral replicate_Suc semiring_norm(2,8) Suc_eq_plus1 add_One_commute
         numeral_plus_one)
  have b: "length (0xFF # replicate 65535 (0 :: byte)) < 2 ^ 31"
    by simp
  show ?thesis
    unfolding emitted_eq[OF b] l
    by (simp add: emit_eval sum_list_replicate_0 stuffed_append stuffed_replicate_0 r)
qed

text \<open>
  C1, as stated, asks for the round trip for every payload with \<open>1 \<le> |P|\<close>,
  \<open>|P| + 4 \<le>\<close> the ring capacity and \<open>|P| + 1 \<le>\<close> the output capacity. Three
  payloads within these bounds do not come back.
  \<^item> \<open>P = 08\<close>, capacity 16, output 8: the emitted frame \<open>7E 00 01 08 F7\<close> has five
    bytes, and the scanner does not look at a ring of fewer than six
    (\<^verbatim>\<open>while(xbee->recv_size >= 6)\<close>): it returns 0.
  \<^item> \<open>P = 7E 7E\<close>, capacity \<open>6 = |P| + 4\<close>, output 8: both bytes are escaped, the
    emitted frame has eight bytes, and only six fit the ring: the scanner returns 0.
  \<^item> \<open>P = FF 00 ... 00\<close> of 65536 bytes, capacity 65540, output 65537: the length goes
    through the \<^verbatim>\<open>uint16_t\<close> parameter of \<^verbatim>\<open>xbee_start_frame\<close> and is emitted as
    \<open>00 00\<close>; the scanner accepts an empty frame with checksum \<open>FF\<close> and returns 0.
\<close>

theorem round_trip_counterexample:
  "(1 \<le> length [0x08 :: byte] \<and> length [0x08 :: byte] + 4 \<le> 16 \<and>
    length [0x08 :: byte] + 1 \<le> 8 \<and>
    emitted [0x08] = [0x7E, 0x00, 0x01, 0x08, 0xF7] \<and>
    xbee_fill_buffer stream_read
      (xbee_open_state 16 [0, 0, 0, 0, 0, 0, 0, 0, 0, 0, 0, 0, 0, 0, 0, 0])
      [0x7E, 0x00, 0x01, 0x08, 0xF7] =
      Inr (5, \<lparr>recv = [0x7E, 0x00, 0x01, 0x08, 0xF7, 0, 0, 0, 0, 0, 0, 0, 0, 0, 0, 0],
                recv_idx = 0, recv_size = 5, recv_max_size = 16\<rparr>, []) \<and>
    xbee_decode_frame
      \<lparr>recv = [0x7E, 0x00, 0x01, 0x08, 0xF7, 0, 0, 0, 0, 0, 0, 0, 0, 0, 0, 0],
       recv_idx = 0, recv_size = 5, recv_max_size = 16\<rparr> 8 [0, 0, 0, 0, 0, 0, 0, 0] =
      Inr (0, \<lparr>recv = [0x7E, 0x00, 0x01, 0x08, 0xF7, 0, 0, 0, 0, 0, 0, 0, 0, 0, 0, 0],
                recv_idx = 0, recv_size = 5, recv_max_size = 16\<rparr>,
           [0, 0, 0, 0, 0, 0, 0, 0])) \<and>
   (length [0x7E, 0x7E :: byte] + 4 \<le> 6 \<and> length [0x7E, 0x7E :: byte] + 1 \<le> 8 \<and>
    emitted [0x7E, 0x7E] = [0x7E, 0x00, 0x02, 0x7D, 0x5E, 0x7D, 0x5E, 0x03] \<and>
    xbee_fill_buffer stream_read (xbee_open_state 6 [0, 0, 0, 0, 0, 0])
      [0x7E, 0x00, 0x02, 0x7D, 0x5E, 0x7D, 0x5E, 0x03] =
      Inr (6, \<lparr>recv = [0x7E, 0x00, 0x02, 0x7D, 0x5E, 0x7D],
                recv_idx = 0, recv_size = 6, recv_max_size = 6\<rparr>, [0x5E, 0x03]) \<and>
    xbee_decode_frame
      \<lparr>recv = [0x7E, 0x00, 0x02, 0x7D, 0x5E, 0x7D],
       recv_idx = 0, recv_size = 6, recv_max_size = 6\<rparr> 8 [0, 0, 0, 0, 0, 0, 0, 0] =
      Inr (0, \<lparr>recv = [0x7E, 0x00, 0x02, 0x7D, 0x5E, 0x7D],
                recv_idx = 1, recv_size = 5, recv_max_size = 6\<rparr>,
           [0x7E, 0x7D, 0, 0, 0, 0, 0, 0])) \<and>
   (length (0xFF # replicate 65535 (0 :: byte)) + 4 \<le> 65540 \<and>
    length (0xFF # replicate 65535 (0 :: byte)) + 1 \<le> 65537 \<and>
    emitted (0xFF # replicate 65535 0) = [0x7E, 0x00, 0x00, 0xFF] @ replicate 65536 0 \<and>
    xbee_fill_buffer stream_read (xbee_open_state 65540 (replicate 65540 0))
      ([0x7E, 0x00, 0x00, 0xFF] @ replicate 65536 0) =
      Inr (65540, \<lparr>recv = [0x7E, 0x00, 0x00, 0xFF] @ replicate 65536 0,
                    recv_idx = 0, recv_size = 65540, recv_max_size = 65540\<rparr>, []) \<and>
    xbee_decode_frame
      \<lparr>recv = [0x7E, 0x00, 0x00, 0xFF] @ replicate 65536 0,
       recv_idx = 0, recv_size = 65540, recv_max_size = 65540\<rparr>
      65537 (replicate 65537 0) =
      Inr (0, \<lparr>recv = [0x7E, 0x00, 0x00, 0xFF] @ replicate 65536 0,
                recv_idx = 4, recv_size = 65536, recv_max_size = 65540\<rparr>,
           (replicate 65537 0)[0 := 0xFF]))"
proof (intro conjI)
  show "emitted [0x08] = [0x7E, 0x00, 0x01, 0x08, 0xF7]"
    and "emitted [0x7E, 0x7E] = [0x7E, 0x00, 0x02, 0x7D, 0x5E, 0x7D, 0x5E, 0x03]"
    by (simp_all add: emitted_eq emit_eval)
  show "emitted (0xFF # replicate 65535 0) = [0x7E, 0x00, 0x00, 0xFF] @ replicate 65536 0"
    by (rule emitted_65536)
qed (simp_all add: load_eval ring_eval)

text \<open>
  C1, amended: for every payload \<open>P\<close> of at most 65535 bytes whose emitted byte sequence
  has at least 6 bytes (every \<open>P\<close> of two or more bytes, by \<open>emitted_length\<close>) and
  at most as many bytes as the ring has capacity, every empty ring (any \<open>recv_idx\<close>; the
  invariant of \<^verbatim>\<open>xbee_check\<close>, a memory of \<open>recv_max_size\<close> bytes, a capacity below
  \<open>2 ^ 63\<close>) and every output buffer of at least \<open>|P| + 1\<close> bytes:
  \<^verbatim>\<open>xbee_send_frame\<close> succeeds on an accepting transport; \<^verbatim>\<open>xbee_fill_buffer\<close> loads
  all the emitted bytes into the ring; and \<^verbatim>\<open>xbee_decode_frame\<close> on the loaded ring
  returns \<open>|P|\<close>, with the first \<open>|P|\<close> bytes of the output buffer equal to \<open>P\<close>
  and the ring empty again.
\<close>

theorem send_decode_round_trip:
  assumes len: "length P \<le> 65535"
    and six: "6 \<le> length (emitted P)"
    and ring: "xbee_check xbee" "recv_size xbee = 0" "length (recv xbee) = recv_max_size xbee"
      "recv_max_size xbee < 2 ^ 63"
    and fits: "length (emitted P) \<le> recv_max_size xbee"
    and fos: "length P + 1 \<le> frame_out_size" "length frame_out = frame_out_size"
  shows "fst (xbee_send_frame tx_write [] P) = 0 \<and>
         (\<exists>ring ring' out'.
            xbee_fill_buffer stream_read xbee (emitted P) =
              Inr (int (length (emitted P)), ring, []) \<and>
            xbee_decode_frame ring frame_out_size frame_out =
              Inr (int (length P), ring', out') \<and>
            take (length P) out' = P \<and> recv_size ring' = 0)"
proof -
  have l31: "length P < 2 ^ 31" using len by simp
  have b: "length (emitted P) < 2 ^ 31"
    using emitted_length(2)[OF l31] len by simp
  have pos: "0 < length (emitted P)" using six by linarith
  from fill_empty_ring_from_stream[OF ring pos fits b] obtain loaded where
    f: "xbee_fill_buffer stream_read xbee (emitted P) =
          Inr (int (length (emitted P)), loaded, [])"
    and h: "ring_holds loaded (emitted P @ [])"
    by auto
  have fo: "frame_out_size \<le> length frame_out" using fos by simp
  have six': "6 \<le> length (emitted P @ [])" using six by simp
  note d = xbee_decode_frame_emitted[OF h len _ six' fos(1) fo]
  have s: "fst (xbee_send_frame tx_write [] P) = 0"
    by (simp add: xbee_send_frame_tx[OF l31])
  show ?thesis
    using s f d by auto
qed

text \<open>
  An instance where both payload bytes are escaped, the emitted frame fills the ring, and
  the ring starts at \<open>recv_idx = 5\<close>, so that the frame lies across the end of the
  memory.
\<close>

theorem send_decode_round_trip_witness:
  "length [0x7E, 0x11 :: byte] \<le> 65535 \<and>
   emitted [0x7E, 0x11] = [0x7E, 0x00, 0x02, 0x7D, 0x5E, 0x7D, 0x31, 0x70] \<and>
   xbee_check \<lparr>recv = [0, 0, 0, 0, 0, 0, 0, 0], recv_idx = 5, recv_size = 0,
                recv_max_size = 8\<rparr> \<and>
   length [0x7E, 0x11 :: byte] + 1 \<le> 3 \<and>
   (\<exists>ring ring' out'.
      xbee_fill_buffer stream_read
        \<lparr>recv = [0, 0, 0, 0, 0, 0, 0, 0], recv_idx = 5, recv_size = 0, recv_max_size = 8\<rparr>
        [0x7E, 0x00, 0x02, 0x7D, 0x5E, 0x7D, 0x31, 0x70] = Inr (8, ring, []) \<and>
      xbee_decode_frame ring 3 [0, 0, 0] = Inr (2, ring', out') \<and>
      take 2 out' = [0x7E, 0x11] \<and> recv_size ring' = 0)"
proof -
  have e: "emitted [0x7E, 0x11] = [0x7E, 0x00, 0x02, 0x7D, 0x5E, 0x7D, 0x31, 0x70]"
    by (simp add: emitted_eq emit_eval)
  have h: "length [0x7E, 0x11 :: byte] \<le> 65535" "6 \<le> length (emitted [0x7E, 0x11])"
    "xbee_check \<lparr>recv = [0, 0, 0, 0, 0, 0, 0, 0], recv_idx = 5, recv_size = 0,
                recv_max_size = 8\<rparr>"
    "recv_size \<lparr>recv = [0, 0, 0, 0, 0, 0, 0, 0], recv_idx = 5, recv_size = 0,
                recv_max_size = 8\<rparr> = 0"
    "length (recv \<lparr>recv = [0, 0, 0, 0, 0, 0, 0, 0 :: byte], recv_idx = 5, recv_size = 0,
                recv_max_size = 8\<rparr>) =
     recv_max_size \<lparr>recv = [0, 0, 0, 0, 0, 0, 0, 0 :: byte], recv_idx = 5, recv_size = 0,
                recv_max_size = 8\<rparr>"
    "recv_max_size \<lparr>recv = [0, 0, 0, 0, 0, 0, 0, 0 :: byte], recv_idx = 5, recv_size = 0,
                recv_max_size = 8\<rparr> < 2 ^ 63"
    "length (emitted [0x7E, 0x11]) \<le>
     recv_max_size \<lparr>recv = [0, 0, 0, 0, 0, 0, 0, 0 :: byte], recv_idx = 5, recv_size = 0,
                recv_max_size = 8\<rparr>"
    "length [0x7E, 0x11 :: byte] + 1 \<le> 3"
    "length [0, 0, 0 :: byte] = 3"
    by (simp_all add: e xbee_check_def)
  from send_decode_round_trip[OF h] e h(3)
  show ?thesis by (simp add: numeral_2_eq_2)
qed

subsection \<open>C8: the contract of the receive call\<close>











end
